theory Spec2Isabelle
  imports Main "HOL-Library.Sublist" "HOL-Library.Word"
begin

section \<open>The preset table\<close>

text \<open>
  The script \<^verbatim>\<open>scripts/build_noto_ttf_subset.py\<close> keeps its Unicode presets in the
  dictionary \<^verbatim>\<open>PRESETS\<close>. A dictionary literal is ordered, so it is an association
  list here; \<^verbatim>\<open>PRESETS.get(k)\<close> is the lookup, with \<open>None\<close> for a missing key.
\<close>

definition PRESETS :: "(string \<times> string) list" where
  "PRESETS =
    [(''sc-min'', ''U+0020-007E,U+00A0-00FF,U+2000-206F,U+3000-303F,U+FF00-FFEF,U+4E00-9FFF''),
     (''tc-min'', ''U+0020-007E,U+00A0-00FF,U+2000-206F,U+3000-303F,U+FF00-FFEF,U+4E00-9FFF''),
     (''sc-bmp'', ''U+0020-007E,U+00A0-00FF,U+2000-206F,U+3000-303F,U+FF00-FFEF,U+4E00-9FFF,U+3400-4DBF''),
     (''tc-bmp'', ''U+0020-007E,U+00A0-00FF,U+2000-206F,U+3000-303F,U+FF00-FFEF,U+4E00-9FFF,U+3400-4DBF'')]"

definition PRESETS_get :: "string \<Rightarrow> string option" where
  "PRESETS_get k = map_of PRESETS k"

text \<open>
  The six ranges of the two minimal presets, and the way a range list is written in a
  preset: joined by commas.
\<close>

definition min_ranges :: "string list" where
  "min_ranges =
    [''U+0020-007E'', ''U+00A0-00FF'', ''U+2000-206F'', ''U+3000-303F'', ''U+FF00-FFEF'',
     ''U+4E00-9FFF'']"

fun comma_join :: "string list \<Rightarrow> string" where
  "comma_join [] = []"
| "comma_join [r] = r"
| "comma_join (r # rs) = r @ '','' @ comma_join rs"

section \<open>Values, strings and paths\<close>

text \<open>
  Python's \<^verbatim>\<open>str\<close> is a \<open>string\<close> here, in UTF-8: the two non-ASCII characters of
  the script's messages are written as their bytes. An optional command-line value
  (\<open>None\<close> when the flag is absent) is a \<open>string option\<close>; Python tests such a value by
  truthiness, under which \<open>None\<close> and the empty string are both false.
\<close>

definition arrow :: string where
  "arrow = [CHR 0xE2, CHR 0x86, CHR 0x92]"

definition check_mark :: string where
  "check_mark = [CHR 0xE2, CHR 0x9C, CHR 0x93]"

definition opt_str :: "string option \<Rightarrow> string" where
  "opt_str x = (case x of None \<Rightarrow> [] | Some s \<Rightarrow> s)"

definition truthy :: "string option \<Rightarrow> bool" where
  "truthy x = (opt_str x \<noteq> [])"

definition str_opt :: "string option \<Rightarrow> string" where
  "str_opt x = (case x of None \<Rightarrow> ''None'' | Some s \<Rightarrow> s)"

definition str_bool :: "bool \<Rightarrow> string" where
  "str_bool b = (if b then ''True'' else ''False'')"

fun str_nat :: "nat \<Rightarrow> string" where
  "str_nat n =
    (if n < 10 then [''0123456789'' ! n]
     else str_nat (n div 10) @ [''0123456789'' ! (n mod 10)])"

definition str_int :: "int \<Rightarrow> string" where
  "str_int i = (if i < 0 then ''-'' @ str_nat (nat (- i)) else str_nat (nat i))"

text \<open>
  \<^verbatim>\<open>str.lower()\<close>. Only the ASCII capitals are mapped: the result is compared with
  \<^verbatim>\<open>".otf"\<close> alone, and no character outside ASCII lower-cases to a string that holds
  one of \<^verbatim>\<open>.\<close>, \<^verbatim>\<open>o\<close>, \<^verbatim>\<open>t\<close>, \<^verbatim>\<open>f\<close>, so the
  comparison comes out as in Python.
\<close>

definition lower_char :: "char \<Rightarrow> char" where
  "lower_char c =
    (case map_of (zip ''ABCDEFGHIJKLMNOPQRSTUVWXYZ'' ''abcdefghijklmnopqrstuvwxyz'') c of
       None \<Rightarrow> c
     | Some l \<Rightarrow> l)"

definition lower :: "string \<Rightarrow> string" where
  "lower s = map lower_char s"

text \<open>
  Paths follow \<^verbatim>\<open>posixpath\<close>. \<^verbatim>\<open>str.rfind\<close> gives the last index of a
  character, or -1.
\<close>

fun rfind :: "char \<Rightarrow> string \<Rightarrow> int" where
  "rfind c [] = -1"
| "rfind c (x # xs) =
    (let r = rfind c xs in if 0 \<le> r then r + 1 else if x = c then 0 else -1)"

text \<open>
  \<^verbatim>\<open>os.path.splitext\<close>: the extension starts at the last dot, when that dot comes
  after the last separator and some character between the separator and the dot is not a
  dot (leading dots of a file name start no extension).
\<close>

definition splitext :: "string \<Rightarrow> string \<times> string" where
  "splitext p =
    (let sepIndex = rfind CHR ''/'' p; dotIndex = rfind CHR ''.'' p in
     if dotIndex > sepIndex \<and>
        filter (\<lambda>c. c \<noteq> CHR ''.'')
          (take (nat (dotIndex - (sepIndex + 1))) (drop (nat (sepIndex + 1)) p)) \<noteq> []
     then (take (nat dotIndex) p, drop (nat dotIndex) p)
     else (p, []))"

text \<open>\<^verbatim>\<open>os.path.join\<close> of two components.\<close>

definition join :: "string \<Rightarrow> string \<Rightarrow> string" where
  "join a b =
    (if b \<noteq> [] \<and> hd b = CHR ''/'' then b
     else if a = [] \<or> last a = CHR ''/'' then a @ b
     else a @ ''/'' @ b)"

section \<open>The world of a run\<close>

text \<open>
  The script works on files through library calls. The model keeps a file system, the two
  output streams and the list of tool invocations, and passes them along explicitly.

  A path names the file that the operating system resolves it to. \<open>resolve\<close> does this
  against the working directory: it drops empty and \<^verbatim>\<open>.\<close> components and steps back
  on \<^verbatim>\<open>..\<close>. There are no symbolic links. The file system maps resolved paths to
  file contents and knows which resolved paths are directories.
\<close>

type_synonym path = string
type_synonym pathkey = "string list"
type_synonym bytes = "8 word list"

text \<open>
  The exceptions of class \<^verbatim>\<open>Exception\<close> that the script or the libraries raise.
  \<open>LibraryError\<close> stands for whatever fontTools raises on a font or an option it rejects.
  \<^verbatim>\<open>SystemExit\<close> is not among them: it is not an \<^verbatim>\<open>Exception\<close>, and is the
  \<open>SysExit\<close> result below.
\<close>

datatype exception =
    RuntimeError string
  | CalledProcessError int
  | TypeError
  | FileNotFoundError
  | FileExistsError
  | IsADirectoryError
  | NotADirectoryError
  | PermissionError
  | SameFileError
  | UnicodeEncodeError
  | LibraryError string

record filesys =
  files :: "pathkey \<Rightarrow> bytes option"
  dirs :: "pathkey set"

text \<open>
  What \<^verbatim>\<open>TTFont(path)\<close> gives for a file it can open: the tags of the tables in the
  font's directory, and what reading \<^verbatim>\<open>tf['maxp'].numGlyphs\<close> gives (the table is
  decoded only then, and decoding can raise).
\<close>

record ttfont =
  tables :: "string list"
  maxp_numGlyphs :: "exception + int"

text \<open>
  The environment: everything the script takes from outside its own code.
  \<^item> \<open>cwd\<close>: the working directory, an absolute path;
  \<^item> \<open>which\<close>: \<^verbatim>\<open>shutil.which\<close>;
  \<^item> \<open>pyftsubset_main\<close>: \<^verbatim>\<open>fontTools.subset.main\<close>, which reads files and either
    raises or produces the bytes of the subset font;
  \<^item> \<open>fontforge\<close>: the FontForge child process, which reads files and ends with a return
    code, having written a font or not;
  \<^item> \<open>TTFont\<close>: the fontTools parser, on the bytes of a file;
  \<^item> \<open>mkdtemp_name\<close>: the name \<^verbatim>\<open>tempfile.mkdtemp\<close> picks for a given prefix;
  \<^item> \<open>write_denied\<close>: the places where the operating system refuses to create or write;
  \<^item> \<open>stdout_error\<close>: what printing a line to standard output raises, if anything.
    The stream encodes strictly, so a line with a character that its encoding lacks
    raises \<^verbatim>\<open>UnicodeEncodeError\<close>; the script's messages hold an arrow (U+2192) and a
    check mark (U+2713). Standard error replaces such characters and raises nothing.
\<close>

record env =
  cwd :: path
  which :: "string \<Rightarrow> path option"
  pyftsubset_main :: "string list \<Rightarrow> filesys \<Rightarrow> exception + bytes"
  fontforge :: "string list \<Rightarrow> filesys \<Rightarrow> int \<times> bytes option"
  TTFont :: "bytes \<Rightarrow> exception + ttfont"
  mkdtemp_name :: "string \<Rightarrow> filesys \<Rightarrow> path"
  write_denied :: "pathkey \<Rightarrow> bool"
  stdout_error :: "string \<Rightarrow> exception option"

datatype call = Pyftsubset "string list" | Subprocess "string list"

record world =
  fs :: filesys
  stdout :: "string list"
  stderr :: "string list"
  invocations :: "call list"

text \<open>
  A statement of the script either completes with a value, raises an exception, or raises
  \<^verbatim>\<open>SystemExit\<close> through \<^verbatim>\<open>sys.exit\<close>; in each case it leaves a world behind.
\<close>

datatype 'a result = Ok 'a | Raise exception | SysExit int

type_synonym 'a action = "world \<Rightarrow> 'a result \<times> world"

definition and_then :: "'a action \<Rightarrow> ('a \<Rightarrow> 'b action) \<Rightarrow> 'b action" where
  "and_then m f w =
    (case m w of
       (Ok x, w') \<Rightarrow> f x w'
     | (Raise e, w') \<Rightarrow> (Raise e, w')
     | (SysExit n, w') \<Rightarrow> (SysExit n, w'))"

text \<open>
  \<^verbatim>\<open>try: ... finally: cleanup\<close>, for a cleanup that cannot raise: it runs however the
  body ends, and the body's result stands.
\<close>

definition try_finally :: "'a action \<Rightarrow> (world \<Rightarrow> world) \<Rightarrow> 'a action" where
  "try_finally body cleanup w = (case body w of (r, w') \<Rightarrow> (r, cleanup w'))"

text \<open>
  \<^verbatim>\<open>try: ... except Exception: pass\<close>: an exception of the body ends the body and is
  dropped.
\<close>

definition try_except_pass :: "unit action \<Rightarrow> unit action" where
  "try_except_pass body w =
    (case body w of
       (Raise e, w') \<Rightarrow> (Ok (), w')
     | (r, w') \<Rightarrow> (r, w'))"

text \<open>
  \<^verbatim>\<open>print(s)\<close> writes a line to standard output, or raises and writes nothing;
  \<^verbatim>\<open>print(s, file=sys.stderr)\<close> writes a line to standard error.
\<close>

definition print_out :: "env \<Rightarrow> string \<Rightarrow> unit action" where
  "print_out env s w =
    (case stdout_error env s of
       Some e \<Rightarrow> (Raise e, w)
     | None \<Rightarrow> (Ok (), w\<lparr>stdout := stdout w @ [s]\<rparr>))"

definition print_err :: "string \<Rightarrow> unit action" where
  "print_err s w = (Ok (), w\<lparr>stderr := stderr w @ [s]\<rparr>)"

definition sys_exit :: "int \<Rightarrow> 'a action" where
  "sys_exit n w = (SysExit n, w)"

subsection \<open>Files and directories\<close>

fun split_slash :: "string \<Rightarrow> string list" where
  "split_slash [] = [[]]"
| "split_slash (c # cs) =
    (if c = CHR ''/'' then [] # split_slash cs
     else (case split_slash cs of [] \<Rightarrow> [[c]] | x # xs \<Rightarrow> (c # x) # xs))"

definition norm_step :: "pathkey \<Rightarrow> string \<Rightarrow> pathkey" where
  "norm_step acc name =
    (if name = [] \<or> name = ''.'' then acc
     else if name = ''..'' then butlast acc
     else acc @ [name])"

definition resolve :: "env \<Rightarrow> path \<Rightarrow> pathkey" where
  "resolve env p =
    foldl norm_step []
      (split_slash (if p \<noteq> [] \<and> hd p = CHR ''/'' then p else cwd env @ ''/'' @ p))"

text \<open>
  A path can name a file only when its last component is a name: a path that is empty or
  ends in a separator, in \<^verbatim>\<open>.\<close> or in \<^verbatim>\<open>..\<close> names a directory, if anything.
\<close>

definition file_name_ok :: "path \<Rightarrow> bool" where
  "file_name_ok p = (last (split_slash p) \<notin> {[], ''.'', ''..''})"

text \<open>\<^verbatim>\<open>os.path.isfile\<close> and \<^verbatim>\<open>os.path.exists\<close>.\<close>

definition isfile :: "env \<Rightarrow> filesys \<Rightarrow> path \<Rightarrow> bool" where
  "isfile env fsys p = (file_name_ok p \<and> files fsys (resolve env p) \<noteq> None)"

definition exists_path :: "env \<Rightarrow> filesys \<Rightarrow> path \<Rightarrow> bool" where
  "exists_path env fsys p = (resolve env p \<in> dirs fsys \<or> isfile env fsys p)"

text \<open>Reading a whole file, as \<^verbatim>\<open>open(p, 'rb')\<close> and a read do.\<close>

definition read_file :: "env \<Rightarrow> filesys \<Rightarrow> path \<Rightarrow> exception + bytes" where
  "read_file env fsys p =
    (let k = resolve env p in
     if k \<in> dirs fsys then Inl IsADirectoryError
     else if \<not> file_name_ok p then
       Inl (if files fsys k \<noteq> None then NotADirectoryError else FileNotFoundError)
     else (case files fsys k of None \<Rightarrow> Inl FileNotFoundError | Some b \<Rightarrow> Inr b))"

text \<open>
  \<^verbatim>\<open>os.path.dirname(os.path.abspath(p))\<close>: the directory that holds \<open>p\<close>, as a
  resolved path.
\<close>

definition parent_dir :: "env \<Rightarrow> path \<Rightarrow> pathkey" where
  "parent_dir env p = butlast (resolve env p)"

text \<open>
  \<^verbatim>\<open>os.makedirs(d, exist_ok=True)\<close>: creates \<open>d\<close> and every missing directory above
  it. It raises when a file is in the way or the system refuses to create a directory.
\<close>

definition makedirs :: "env \<Rightarrow> pathkey \<Rightarrow> unit action" where
  "makedirs env d w =
    (if files (fs w) d \<noteq> None then (Raise FileExistsError, w)
     else if list_ex (\<lambda>q. files (fs w) q \<noteq> None) (prefixes d) then (Raise NotADirectoryError, w)
     else if list_ex (\<lambda>q. q \<notin> dirs (fs w) \<and> write_denied env q) (prefixes d)
       then (Raise PermissionError, w)
     else (Ok (), w\<lparr>fs := (fs w)\<lparr>dirs := dirs (fs w) \<union> set (prefixes d)\<rparr>\<rparr>))"

text \<open>
  \<^verbatim>\<open>tempfile.mkdtemp(prefix=...)\<close>: creates a directory that did not exist before and
  returns its path.
\<close>

definition mkdtemp :: "env \<Rightarrow> string \<Rightarrow> path action" where
  "mkdtemp env pre w =
    (let name = mkdtemp_name env pre (fs w); k = resolve env name in
     if k \<in> dirs (fs w) \<or> files (fs w) k \<noteq> None then (Raise FileExistsError, w)
     else if butlast k \<notin> dirs (fs w) then (Raise FileNotFoundError, w)
     else if write_denied env k then (Raise PermissionError, w)
     else (Ok name, w\<lparr>fs := (fs w)\<lparr>dirs := insert k (dirs (fs w))\<rparr>\<rparr>))"

text \<open>
  \<^verbatim>\<open>shutil.rmtree(d, ignore_errors=True)\<close>: removes \<open>d\<close> and all that is in it, and
  never raises.
\<close>

definition rmtree :: "env \<Rightarrow> path \<Rightarrow> world \<Rightarrow> world" where
  "rmtree env d w =
    (let t = resolve env d in
     w\<lparr>fs := \<lparr>files = (\<lambda>k. if prefix t k then None else files (fs w) k),
               dirs = {k \<in> dirs (fs w). \<not> prefix t k}\<rparr>\<rparr>)"

text \<open>Writing a whole file, as \<^verbatim>\<open>open(p, 'wb')\<close> and a write do.\<close>

definition write_file :: "env \<Rightarrow> path \<Rightarrow> bytes \<Rightarrow> unit action" where
  "write_file env p b w =
    (let k = resolve env p in
     if p = [] then (Raise FileNotFoundError, w)
     else if k \<in> dirs (fs w) \<or> \<not> file_name_ok p then (Raise IsADirectoryError, w)
     else if butlast k \<notin> dirs (fs w) then (Raise FileNotFoundError, w)
     else if write_denied env k then (Raise PermissionError, w)
     else (Ok (), w\<lparr>fs := (fs w)\<lparr>files := (files (fs w))(k \<mapsto> b)\<rparr>\<rparr>))"

text \<open>
  \<^verbatim>\<open>shutil.copyfile(src, dst)\<close>: refuses to copy a file onto itself (both paths exist
  and are the same file), then reads the source and writes the destination.
\<close>

definition copyfile :: "env \<Rightarrow> path \<Rightarrow> path \<Rightarrow> unit action" where
  "copyfile env src dst w =
    (if resolve env src = resolve env dst \<and> exists_path env (fs w) src
          \<and> exists_path env (fs w) dst
     then (Raise SameFileError, w)
     else
       (case read_file env (fs w) src of
          Inl e \<Rightarrow> (Raise e, w)
        | Inr b \<Rightarrow> write_file env dst b w))"

section \<open>The script\<close>

subsection \<open>\<^verbatim>\<open>have\<close> and \<^verbatim>\<open>human_size\<close>\<close>

text \<open>\<^verbatim>\<open>have(exe)\<close>; the script defines it and never calls it.\<close>

definition have_exe :: "env \<Rightarrow> string \<Rightarrow> bool" where
  "have_exe env exe = (which env exe \<noteq> None)"

text \<open>
  \<^verbatim>\<open>human_size(n)\<close> divides by \<^verbatim>\<open>1024.0\<close> until the number is below 1024 and
  prints it with one decimal. For a size below \<open>2 ^ 53\<close> every one of these
  floating-point numbers is the exact quotient \<open>n / d\<close> with \<open>d\<close> a power of 1024, so
  the model keeps \<open>n\<close> and \<open>d\<close>. The format \<^verbatim>\<open>.1f\<close> rounds the exact value to
  the nearest tenth, a tie to the even digit.
\<close>

definition fmt_1f :: "nat \<Rightarrow> nat \<Rightarrow> string" where
  "fmt_1f n d =
    (let q = (10 * n) div d; r = (10 * n) mod d;
         t = (if 2 * r > d \<or> (2 * r = d \<and> odd q) then q + 1 else q)
     in str_nat (t div 10) @ ''.'' @ str_nat (t mod 10))"

fun human_size_from :: "nat \<Rightarrow> nat \<Rightarrow> string list \<Rightarrow> string" where
  "human_size_from n d [] = fmt_1f n d @ '' TB''"
| "human_size_from n d (unit # units) =
    (if n < 1024 * d then fmt_1f n d @ '' '' @ unit
     else human_size_from n (1024 * d) units)"

definition human_size :: "nat \<Rightarrow> string" where
  "human_size n = human_size_from n 1 [''B'', ''KB'', ''MB'', ''GB'']"

definition raise_exc :: "exception \<Rightarrow> 'a action" where
  "raise_exc e w = (Raise e, w)"

definition done_ok :: "unit action" where
  "done_ok w = (Ok (), w)"

subsection \<open>\<^verbatim>\<open>run_pyftsubset\<close>\<close>

text \<open>
  The subsetter writes its result to the path given by \<^verbatim>\<open>--output-file=\<close> (the last
  such option counts; without one it is the input path with \<^verbatim>\<open>.subset\<close> added).
  Whatever it raises, also when it cannot write, comes out of \<^verbatim>\<open>run_pyftsubset\<close>.
\<close>

definition output_file_of :: "string list \<Rightarrow> path" where
  "output_file_of args_list =
    (case filter (prefix ''--output-file='') args_list of
       [] \<Rightarrow> (case args_list of [] \<Rightarrow> [] | f # _ \<Rightarrow> f @ ''.subset'')
     | x # xs \<Rightarrow> drop 14 (last (x # xs)))"

definition run_pyftsubset :: "env \<Rightarrow> string list \<Rightarrow> unit action" where
  "run_pyftsubset env args_list w =
    (let w1 = w\<lparr>invocations := invocations w @ [Pyftsubset args_list]\<rparr> in
     case pyftsubset_main env args_list (fs w1) of
       Inl e \<Rightarrow> (Raise e, w1)
     | Inr b \<Rightarrow> write_file env (output_file_of args_list) b w1)"

subsection \<open>\<^verbatim>\<open>ff_convert_otf_to_ttf\<close>\<close>

definition ff_script :: string where
  "ff_script = concat (map (\<lambda>l. l @ [CHR 0x0A])
    [''import fontforge, sys'',
     ''f = fontforge.open(sys.argv[1])'',
     ''try:'',
     ''    # Flatten CID if present'',
     ''    if getattr(f, 'cidfontname', None):'',
     ''        f.cidFlatten()'',
     ''except Exception:'',
     ''    pass'',
     ''f.encoding = 'UnicodeFull'' @ [CHR 0x27],
     ''for g in f.glyphs():'',
     ''    try:'',
     ''        g.unlinkRef()'',
     ''    except Exception:'',
     ''        pass'',
     ''f.generate(sys.argv[2])''])"

text \<open>
  \<^verbatim>\<open>subprocess.run(cmd, check=True)\<close> waits for the child and raises
  \<^verbatim>\<open>CalledProcessError\<close> on a return code other than 0. The file the child generated,
  if any, is at \<open>ttf_path\<close> afterwards, where the system let it write.
\<close>

definition ff_convert_otf_to_ttf :: "env \<Rightarrow> path \<Rightarrow> path \<Rightarrow> unit action" where
  "ff_convert_otf_to_ttf env otf_path ttf_path w =
    (case which env ''fontforge'' of
       None \<Rightarrow>
         (Raise (RuntimeError ''FontForge CLI not found. Install with: brew install fontforge''), w)
     | Some ff \<Rightarrow>
         (let cmd = [ff, ''-lang=py'', ''-c'', ff_script, otf_path, ttf_path];
              w1 = w\<lparr>invocations := invocations w @ [Subprocess cmd]\<rparr>;
              (rc, generated) = fontforge env cmd (fs w1);
              w2 = (case generated of None \<Rightarrow> w1 | Some b \<Rightarrow> snd (write_file env ttf_path b w1))
          in if rc \<noteq> 0 then (Raise (CalledProcessError rc), w2) else (Ok (), w2)))"

subsection \<open>\<^verbatim>\<open>check_ttf_tables\<close>\<close>

definition open_TTFont :: "env \<Rightarrow> filesys \<Rightarrow> path \<Rightarrow> exception + ttfont" where
  "open_TTFont env fsys p =
    (case read_file env fsys p of
       Inl e \<Rightarrow> Inl e
     | Inr b \<Rightarrow> TTFont env b)"

text \<open>The body of the \<^verbatim>\<open>try\<close> block, then the function with its handler.\<close>

definition check_ttf_tables_try ::
  "env \<Rightarrow> filesys \<Rightarrow> path \<Rightarrow> exception + (bool \<times> bool \<times> bool \<times> int)" where
  "check_ttf_tables_try env fsys p =
    (case open_TTFont env fsys p of
       Inl e \<Rightarrow> Inl e
     | Inr tf \<Rightarrow>
         (let has_glyf = ''glyf'' \<in> set (tables tf);
              has_loca = ''loca'' \<in> set (tables tf)
          in case (if ''maxp'' \<in> set (tables tf) then maxp_numGlyphs tf else Inr (- 1)) of
               Inl e \<Rightarrow> Inl e
             | Inr num_glyphs \<Rightarrow> Inr (has_glyf \<and> has_loca, has_glyf, has_loca, num_glyphs)))"

definition check_ttf_tables :: "env \<Rightarrow> path \<Rightarrow> (bool \<times> bool \<times> bool \<times> int) action" where
  "check_ttf_tables env p w =
    (case check_ttf_tables_try env (fs w) p of
       Inl e \<Rightarrow> (Ok (False, False, False, - 1), w)
     | Inr r \<Rightarrow> (Ok r, w))"

subsection \<open>\<^verbatim>\<open>main\<close>\<close>

text \<open>
  The parsed command line. \<^verbatim>\<open>argparse\<close> makes \<open>in_font\<close> and \<open>out_font\<close>
  required, and admits for \<open>preset\<close> only a key of the preset table.
\<close>

record args =
  in_font :: path
  out_font :: path
  preset :: "string option"
  unicodes :: "string option"
  text_file :: "string option"
  no_second_subset :: bool
  min_glyphs :: int

definition valid_args :: "args \<Rightarrow> bool" where
  "valid_args a = (case preset a of None \<Rightarrow> True | Some p \<Rightarrow> p \<in> set (map fst PRESETS))"

text \<open>Stage A: pre-subset the OTF.\<close>

definition stage_A :: "env \<Rightarrow> args \<Rightarrow> path \<Rightarrow> unit action" where
  "stage_A env a tmpdir =
    (let subset_otf = join tmpdir ''subset.otf'' in
     if truthy (text_file a) then
       and_then
         (print_out env (''[A] Pre-subset OTF by text-file '' @ arrow @ '' '' @ subset_otf))
         (\<lambda>_. run_pyftsubset env
            [in_font a,
             ''--output-file='' @ subset_otf,
             ''--layout-features=*'',
             ''--no-hinting'',
             ''--desubroutinize'',
             ''--text-file='' @ opt_str (text_file a)])
     else
       (let u = (if truthy (unicodes a) then unicodes a
                 else PRESETS_get (if truthy (preset a) then opt_str (preset a) else ''sc-min''))
        in and_then
          (print_out env (''[A] Pre-subset OTF by unicodes ('' @ str_opt u @ '') '' @ arrow @ '' ''
             @ subset_otf))
          (\<lambda>_. case u of
             None \<Rightarrow> raise_exc TypeError
           | Some us \<Rightarrow> run_pyftsubset env
               [in_font a,
                ''--output-file='' @ subset_otf,
                ''--layout-features=*'',
                ''--no-hinting'',
                ''--desubroutinize'',
                ''--unicodes='' @ us])))"

text \<open>Stage B: convert the subset OTF to a TTF with FontForge.\<close>

definition stage_B :: "env \<Rightarrow> path \<Rightarrow> unit action" where
  "stage_B env tmpdir =
    (let subset_otf = join tmpdir ''subset.otf'';
         ttf_intermediate = join tmpdir ''intermediate.ttf''
     in and_then
       (print_out env (''[B] Convert subset OTF '' @ arrow @ '' TTF via FontForge: '' @ subset_otf
          @ '' '' @ arrow @ '' '' @ ttf_intermediate))
       (\<lambda>_. ff_convert_otf_to_ttf env subset_otf ttf_intermediate))"

text \<open>The check of the intermediate font, with exit code 2.\<close>

definition intermediate_check :: "env \<Rightarrow> args \<Rightarrow> path \<Rightarrow> unit action" where
  "intermediate_check env a tmpdir =
    and_then (check_ttf_tables env (join tmpdir ''intermediate.ttf''))
      (\<lambda>(ok, has_glyf, has_loca, num_glyphs).
         if \<not> ok \<or> num_glyphs < min_glyphs a then
           and_then
             (print_err (''ERROR: Converted TTF invalid or too few glyphs (glyf=''
                @ str_bool has_glyf @ '', loca='' @ str_bool has_loca @ '', numGlyphs=''
                @ str_int num_glyphs @ '').''))
             (\<lambda>_. sys_exit 2)
         else done_ok)"

text \<open>Stage C: subset the TTF again, or copy it.\<close>

definition stage_C :: "env \<Rightarrow> args \<Rightarrow> path \<Rightarrow> unit action" where
  "stage_C env a tmpdir =
    (let ttf_intermediate = join tmpdir ''intermediate.ttf''; out_path = out_font a in
     if no_second_subset a then
       and_then
         (print_out env (''[C] Skipping second subset. Writing TTF '' @ arrow @ '' '' @ out_path))
         (\<lambda>_. copyfile env ttf_intermediate out_path)
     else if truthy (text_file a) then
       and_then
         (print_out env (''[C] Subset TTF by text-file '' @ arrow @ '' '' @ out_path))
         (\<lambda>_. run_pyftsubset env
            [ttf_intermediate,
             ''--output-file='' @ out_path,
             ''--layout-features=*'',
             ''--no-hinting'',
             ''--glyph-names'',
             ''--retain-gids=no'',
             ''--passthrough-tables'',
             ''--text-file='' @ opt_str (text_file a)])
     else
       (let u2 = (if truthy (unicodes a) then unicodes a
                  else PRESETS_get (if truthy (preset a) then opt_str (preset a) else ''sc-min''))
        in and_then
          (print_out env (''[C] Subset TTF by unicodes ('' @ str_opt u2 @ '') '' @ arrow @ '' ''
             @ out_path))
          (\<lambda>_. case u2 of
             None \<Rightarrow> raise_exc TypeError
           | Some us \<Rightarrow> run_pyftsubset env
               [ttf_intermediate,
                ''--output-file='' @ out_path,
                ''--layout-features=*'',
                ''--no-hinting'',
                ''--glyph-names'',
                ''--retain-gids=no'',
                ''--passthrough-tables'',
                ''--unicodes='' @ us])))"

text \<open>The branch for an input with the extension \<^verbatim>\<open>.otf\<close>.\<close>

definition otf_branch :: "env \<Rightarrow> args \<Rightarrow> path \<Rightarrow> unit action" where
  "otf_branch env a tmpdir =
    and_then (stage_A env a tmpdir) (\<lambda>_.
    and_then (stage_B env tmpdir) (\<lambda>_.
    and_then (intermediate_check env a tmpdir) (\<lambda>_.
    stage_C env a tmpdir)))"

text \<open>The branch for every other input: subset it directly, or copy it.\<close>

definition ttf_branch :: "env \<Rightarrow> args \<Rightarrow> unit action" where
  "ttf_branch env a =
    (let in_path = in_font a; out_path = out_font a in
     if truthy (text_file a) \<or> truthy (unicodes a) \<or> truthy (preset a) then
       (if truthy (text_file a) then
          and_then
            (print_out env (''[T] Subset TTF by text-file '' @ arrow @ '' '' @ out_path))
            (\<lambda>_. run_pyftsubset env
               [in_path,
                ''--output-file='' @ out_path,
                ''--layout-features=*'',
                ''--no-hinting'',
                ''--glyph-names'',
                ''--retain-gids=no'',
                ''--passthrough-tables'',
                ''--text-file='' @ opt_str (text_file a)])
        else
          (let u = (if truthy (unicodes a) then unicodes a
                    else PRESETS_get (if truthy (preset a) then opt_str (preset a) else ''sc-min''))
           in and_then
             (print_out env (''[T] Subset TTF by unicodes ('' @ str_opt u @ '') '' @ arrow @ '' ''
                @ out_path))
             (\<lambda>_. case u of
                None \<Rightarrow> raise_exc TypeError
              | Some us \<Rightarrow> run_pyftsubset env
                  [in_path,
                   ''--output-file='' @ out_path,
                   ''--layout-features=*'',
                   ''--no-hinting'',
                   ''--glyph-names'',
                   ''--retain-gids=no'',
                   ''--passthrough-tables'',
                   ''--unicodes='' @ us])))
     else
       and_then
         (print_out env (''[T] Copy TTF as-is '' @ arrow @ '' '' @ out_path))
         (\<lambda>_. copyfile env in_path out_path))"

text \<open>
  The size summary sits in a \<^verbatim>\<open>try\<close> of its own whose handler passes: when a size
  cannot be read or the line cannot be printed, nothing is printed and the run goes on.
  Both paths are files whenever this point is reached, and the size of a file is the length
  of its contents.
\<close>

definition print_sizes :: "env \<Rightarrow> args \<Rightarrow> unit action" where
  "print_sizes env a =
    try_except_pass (\<lambda>w.
      (case read_file env (fs w) (in_font a) of
         Inl e \<Rightarrow> (Raise e, w)
       | Inr bi \<Rightarrow>
          (case read_file env (fs w) (out_font a) of
             Inl e \<Rightarrow> (Raise e, w)
           | Inr bo \<Rightarrow>
              print_out env (''Size: '' @ human_size (length bi) @ '' '' @ arrow @ '' ''
                @ human_size (length bo)) w)))"

text \<open>The final verification, with exit code 3.\<close>

definition final_verification :: "env \<Rightarrow> args \<Rightarrow> unit action" where
  "final_verification env a =
    (let out_path = out_font a in
     and_then (check_ttf_tables env out_path)
       (\<lambda>(ok, has_glyf, has_loca, num_glyphs).
          if \<not> ok \<or> num_glyphs < min_glyphs a then
            and_then (print_out env (''['' @ check_mark @ ''] Output path: '' @ out_path)) (\<lambda>_.
            and_then
              (print_err (''[X] Verification failed: glyf='' @ str_bool has_glyf @ '', loca=''
                 @ str_bool has_loca @ '', numGlyphs='' @ str_int num_glyphs @ '' (< ''
                 @ str_int (min_glyphs a) @ '').''))
              (\<lambda>_. sys_exit 3))
          else
            and_then (print_out env (''['' @ check_mark @ ''] Success.'')) (\<lambda>_.
            and_then (print_out env (''Output: '' @ out_path)) (\<lambda>_.
            print_sizes env a))))"

text \<open>The body of the \<^verbatim>\<open>try\<close> block of \<^verbatim>\<open>main\<close>.\<close>

definition try_body :: "env \<Rightarrow> args \<Rightarrow> string \<Rightarrow> path \<Rightarrow> unit action" where
  "try_body env a ext tmpdir =
    and_then (if ext = ''.otf'' then otf_branch env a tmpdir else ttf_branch env a)
      (\<lambda>_. final_verification env a)"

definition main :: "env \<Rightarrow> args \<Rightarrow> unit action" where
  "main env a w =
    (let in_path = in_font a; out_path = out_font a in
     if \<not> isfile env (fs w) in_path then
       and_then (print_err (''ERROR: input not found: '' @ in_path)) (\<lambda>_. sys_exit 1) w
     else
       and_then (makedirs env (parent_dir env out_path)) (\<lambda>_.
         let ext = lower (snd (splitext in_path)) in
         and_then (mkdtemp env ''cjk2ttf_'') (\<lambda>tmpdir.
           try_finally (try_body env a ext tmpdir) (rmtree env tmpdir))) w)"

text \<open>
  The process: \<^verbatim>\<open>main()\<close> is all the script runs. When it returns, the exit code is
  0; \<^verbatim>\<open>sys.exit(n)\<close> gives exit code \<open>n\<close>; an exception nothing catches ends the
  process with a traceback (and the interpreter's exit status 1).
\<close>

datatype outcome = Exit int | Traceback exception

definition outcome_of :: "unit result \<Rightarrow> outcome" where
  "outcome_of r = (case r of Ok _ \<Rightarrow> Exit 0 | SysExit n \<Rightarrow> Exit n | Raise e \<Rightarrow> Traceback e)"

definition run_script :: "env \<Rightarrow> args \<Rightarrow> world \<Rightarrow> outcome \<times> world" where
  "run_script env a w = (case main env a w of (r, w') \<Rightarrow> (outcome_of r, w'))"

section \<open>Notions used to state the properties\<close>

text \<open>
  The part of \<^verbatim>\<open>main\<close> before the \<^verbatim>\<open>try\<close> block: the check of the input, the
  output directory and the temporary directory. It returns the temporary directory.
\<close>

definition prelude :: "env \<Rightarrow> args \<Rightarrow> path action" where
  "prelude env a w =
    (if \<not> isfile env (fs w) (in_font a) then
       and_then (print_err (''ERROR: input not found: '' @ in_font a)) (\<lambda>_. sys_exit 1) w
     else
       and_then (makedirs env (parent_dir env (out_font a))) (\<lambda>_. mkdtemp env ''cjk2ttf_'') w)"

text \<open>The extension test of \<^verbatim>\<open>main\<close>, and the stages that it selects.\<close>

definition otf_input :: "args \<Rightarrow> bool" where
  "otf_input a = (lower (snd (splitext (in_font a))) = ''.otf'')"

definition produce_output :: "env \<Rightarrow> args \<Rightarrow> path \<Rightarrow> unit action" where
  "produce_output env a tmpdir =
    (if otf_input a then otf_branch env a tmpdir else ttf_branch env a)"

text \<open>
  A run produces its output when it passes the prelude and the selected stages complete:
  it has then come to the final verification.
\<close>

definition output_produced :: "env \<Rightarrow> args \<Rightarrow> world \<Rightarrow> bool" where
  "output_produced env a w =
    (case prelude env a w of
       (Ok tmpdir, w2) \<Rightarrow> fst (produce_output env a tmpdir w2) = Ok ()
     | _ \<Rightarrow> False)"

text \<open>Stage A and Stage B together: the run up to the intermediate font.\<close>

definition stages_AB :: "env \<Rightarrow> args \<Rightarrow> path \<Rightarrow> unit action" where
  "stages_AB env a tmpdir = and_then (stage_A env a tmpdir) (\<lambda>_. stage_B env tmpdir)"

text \<open>The test that both verification points apply to the tuple of \<open>check_ttf_tables\<close>.\<close>

definition rejected :: "args \<Rightarrow> bool \<times> bool \<times> bool \<times> int \<Rightarrow> bool" where
  "rejected a r = (case r of (ok, has_glyf, has_loca, num_glyphs) \<Rightarrow>
     \<not> (has_glyf \<and> has_loca) \<or> num_glyphs < min_glyphs a)"

text \<open>
  The lines that the final verification prints to standard output: one before exit
  code 3, two (and the size summary, whose failure is dropped) on success. Printing stops
  at the first line that standard output refuses.
\<close>

definition failure_line :: "args \<Rightarrow> string" where
  "failure_line a = ''['' @ check_mark @ ''] Output path: '' @ out_font a"

definition success_lines :: "args \<Rightarrow> string list" where
  "success_lines a = [''['' @ check_mark @ ''] Success.'', ''Output: '' @ out_font a]"

fun first_error :: "env \<Rightarrow> string list \<Rightarrow> exception option" where
  "first_error env [] = None"
| "first_error env (s # ss) =
    (case stdout_error env s of Some e \<Rightarrow> Some e | None \<Rightarrow> first_error env ss)"

text \<open>
  The tuple that \<open>check_ttf_tables\<close> returns for a path in a world (the function always
  returns, so the other two cases do not arise).
\<close>

definition descriptor :: "env \<Rightarrow> world \<Rightarrow> path \<Rightarrow> bool \<times> bool \<times> bool \<times> int" where
  "descriptor env w p =
    (case fst (check_ttf_tables env p w) of
       Ok r \<Rightarrow> r
     | Raise e \<Rightarrow> (False, False, False, - 1)
     | SysExit n \<Rightarrow> (False, False, False, - 1))"

text \<open>The tool invocations and the output lines that a run adds.\<close>

definition new_invocations :: "env \<Rightarrow> args \<Rightarrow> world \<Rightarrow> call list" where
  "new_invocations env a w =
    drop (length (invocations w)) (invocations (snd (run_script env a w)))"

definition new_stdout :: "env \<Rightarrow> args \<Rightarrow> world \<Rightarrow> string list" where
  "new_stdout env a w = drop (length (stdout w)) (stdout (snd (run_script env a w)))"

text \<open>
  The selection criterion as the specification words it, with "given" read as "present on
  the command line": the text file if given, else the explicit Unicode spec if given, else
  the range string of the named preset, else that of sc-min. It is the option handed to the
  subsetter.
\<close>

definition range_of :: "string \<Rightarrow> string" where
  "range_of p = (case PRESETS_get p of None \<Rightarrow> ''None'' | Some r \<Rightarrow> r)"

definition claimed_selection :: "args \<Rightarrow> string" where
  "claimed_selection a =
    (case text_file a of
       Some t \<Rightarrow> ''--text-file='' @ t
     | None \<Rightarrow>
        (case unicodes a of
           Some u \<Rightarrow> ''--unicodes='' @ u
         | None \<Rightarrow>
            (case preset a of
               Some p \<Rightarrow> ''--unicodes='' @ range_of p
             | None \<Rightarrow> ''--unicodes='' @ range_of ''sc-min'')))"

text \<open>
  The same precedence with "given" read as "present and not empty", for each of the three
  values.
\<close>

definition given :: "string option \<Rightarrow> bool" where
  "given x = (case x of None \<Rightarrow> False | Some s \<Rightarrow> s \<noteq> [])"

definition selection :: "args \<Rightarrow> string" where
  "selection a =
    (if given (text_file a) then ''--text-file='' @ opt_str (text_file a)
     else if given (unicodes a) then ''--unicodes='' @ opt_str (unicodes a)
     else if given (preset a) then ''--unicodes='' @ range_of (opt_str (preset a))
     else ''--unicodes='' @ range_of ''sc-min'')"

text \<open>
  \<open>check_ttf_tables\<close> as the specification words it: the failure tuple on any parse
  failure, and on success the two table tests with the glyph count read from the maxp
  table.
\<close>

definition claimed_check :: "env \<Rightarrow> filesys \<Rightarrow> path \<Rightarrow> bool \<times> bool \<times> bool \<times> int" where
  "claimed_check env fsys p =
    (case open_TTFont env fsys p of
       Inl e \<Rightarrow> (False, False, False, - 1)
     | Inr tf \<Rightarrow>
        (case maxp_numGlyphs tf of
           Inl e \<Rightarrow> (False, False, False, - 1)
         | Inr n \<Rightarrow>
            (''glyf'' \<in> set (tables tf) \<and> ''loca'' \<in> set (tables tf),
             ''glyf'' \<in> set (tables tf), ''loca'' \<in> set (tables tf), n)))"

text \<open>The part of a path after its last separator.\<close>

definition basename :: "string \<Rightarrow> string" where
  "basename p = drop (nat (rfind CHR ''/'' p + 1)) p"

subsection \<open>Relations between the world before and after an action\<close>

definition preserves :: "(world \<Rightarrow> world \<Rightarrow> bool) \<Rightarrow> 'a action \<Rightarrow> bool" where
  "preserves R m = (\<forall>w. R w (snd (m w)))"

definition preorder_on_worlds :: "(world \<Rightarrow> world \<Rightarrow> bool) \<Rightarrow> bool" where
  "preorder_on_worlds R = ((\<forall>w. R w w) \<and> (\<forall>u v w. R u v \<longrightarrow> R v w \<longrightarrow> R u w))"

text \<open>What holds of the world whenever an action completes.\<close>

definition ensures :: "'a action \<Rightarrow> (world \<Rightarrow> bool) \<Rightarrow> bool" where
  "ensures m Q = (\<forall>w x w'. m w = (Ok x, w') \<longrightarrow> Q w')"

definition same_dirs :: "world \<Rightarrow> world \<Rightarrow> bool" where
  "same_dirs w w' = (dirs (fs w') = dirs (fs w))"

definition grows_stdout :: "world \<Rightarrow> world \<Rightarrow> bool" where
  "grows_stdout w w' = prefix (stdout w) (stdout w')"

definition selected_only :: "args \<Rightarrow> world \<Rightarrow> world \<Rightarrow> bool" where
  "selected_only a w w' =
    (\<exists>new. invocations w' = invocations w @ new
       \<and> (\<forall>l. Pyftsubset l \<in> set new \<longrightarrow> l \<noteq> [] \<and> last l = selection a))"

text \<open>
  A path has been written when it holds a file and is no directory; an action exits only
  with a given code when every \<^verbatim>\<open>SystemExit\<close> it ends in carries that code.
\<close>

definition written :: "env \<Rightarrow> path \<Rightarrow> world \<Rightarrow> bool" where
  "written env p w = (resolve env p \<notin> dirs (fs w) \<and> files (fs w) (resolve env p) \<noteq> None)"

definition exits_only :: "int \<Rightarrow> 'a action \<Rightarrow> bool" where
  "exits_only c m = (\<forall>w n w'. m w = (SysExit n, w') \<longrightarrow> n = c)"

subsection \<open>A small concrete world\<close>

text \<open>
  A toy font format for running the model: the first byte is the glyph count in hundreds,
  and the bytes 1, 2 and 3 after it stand for the tables glyf, loca and maxp. An empty file
  is not a font. Reading maxp from a font that has none raises.
\<close>

definition toy_TTFont :: "bytes \<Rightarrow> exception + ttfont" where
  "toy_TTFont b =
    (case b of
       [] \<Rightarrow> Inl (LibraryError ''Not a TrueType or OpenType font'')
     | n # flags \<Rightarrow>
         Inr \<lparr>tables = (if 1 \<in> set flags then [''glyf''] else [])
                 @ (if 2 \<in> set flags then [''loca''] else [])
                 @ (if 3 \<in> set flags then [''maxp''] else []),
              maxp_numGlyphs =
                (if 3 \<in> set flags then Inr (100 * uint n) else Inl (LibraryError ''maxp''))\<rparr>)"

definition env0 :: env where
  "env0 =
    \<lparr>cwd = ''/work'',
     which = (\<lambda>exe. Some (''/usr/bin/'' @ exe)),
     pyftsubset_main = (\<lambda>args_list fsys. Inr [6, 1, 2, 3]),
     fontforge = (\<lambda>cmd fsys. (0, Some [7, 1, 2, 3])),
     TTFont = toy_TTFont,
     mkdtemp_name = (\<lambda>pre fsys. ''/tmp/'' @ pre @ ''k3x9''),
     write_denied = (\<lambda>k. False),
     stdout_error = (\<lambda>s. None)\<rparr>"

definition w0 :: world where
  "w0 =
    \<lparr>fs = \<lparr>files = [[''in'', ''font.otf''] \<mapsto> [9, 9],
                    [''in'', ''FONT.OTF''] \<mapsto> [9, 9],
                    [''in'', ''font.ttf''] \<mapsto> [8, 1, 2, 3],
                    [''in'', ''font.woff''] \<mapsto> [8, 1, 2, 3],
                    [''in'', ''small.ttf''] \<mapsto> [2, 1, 2, 3],
                    [''in'', ''nomaxp.ttf''] \<mapsto> [8, 1, 2]],
           dirs = {[], [''in''], [''tmp'']}\<rparr>,
     stdout = [], stderr = [], invocations = []\<rparr>"

definition a0 :: args where
  "a0 = \<lparr>in_font = ''/in/font.otf'', out_font = ''/out/font.ttf'', preset = None,
         unicodes = None, text_file = None, no_second_subset = False, min_glyphs = 500\<rparr>"

text \<open>
  Variations: a FontForge that generates a font of 200 glyphs, no FontForge on the search
  path, a standard output whose encoding has the arrow and not the check mark (as GBK
  has: it refuses a line with the byte \<open>0x9C\<close>, which the check mark has and the arrow
  has not), one whose encoding has neither (as ASCII has: it refuses a line with the byte
  \<open>0xE2\<close>, which both start with), and the temporary directory of these runs.
\<close>

definition env_gbk :: env where
  "env_gbk = env0\<lparr>stdout_error :=
     (\<lambda>s. if CHR 0x9C \<in> set s then Some UnicodeEncodeError else None)\<rparr>"

definition env_ascii :: env where
  "env_ascii = env0\<lparr>stdout_error :=
     (\<lambda>s. if CHR 0xE2 \<in> set s then Some UnicodeEncodeError else None)\<rparr>"

definition env_small_ff :: env where
  "env_small_ff = env0\<lparr>fontforge := (\<lambda>cmd fsys. (0, Some [2, 1, 2, 3]))\<rparr>"

definition env_no_ff :: env where
  "env_no_ff = env0\<lparr>which := (\<lambda>exe. None)\<rparr>"

definition tmp0 :: path where
  "tmp0 = ''/tmp/cjk2ttf_k3x9''"

text \<open>Command lines used as examples.\<close>

definition a_small :: args where
  "a_small = a0\<lparr>in_font := ''/in/small.ttf''\<rparr>"

definition a_ttf :: args where
  "a_ttf = a0\<lparr>in_font := ''/in/font.ttf''\<rparr>"

definition a_woff :: args where
  "a_woff = a0\<lparr>in_font := ''/in/font.woff''\<rparr>"

definition a_upper :: args where
  "a_upper = a0\<lparr>in_font := ''/in/FONT.OTF''\<rparr>"

definition a_missing :: args where
  "a_missing = a0\<lparr>in_font := ''/in/nofont.otf''\<rparr>"

definition a_skip :: args where
  "a_skip = a0\<lparr>no_second_subset := True\<rparr>"

definition a_text :: args where
  "a_text = a0\<lparr>text_file := Some ''/in/chars.txt'', preset := Some ''sc-bmp''\<rparr>"

definition a_empty_unicodes :: args where
  "a_empty_unicodes = a0\<lparr>unicodes := Some []\<rparr>"

section \<open>The preset table: theorems\<close>

text \<open>
  C8. The preset table has exactly the four names sc-min, tc-min, sc-bmp and tc-bmp, each
  once. sc-min and tc-min map to the same string, the six ranges U+0020-007E, U+00A0-00FF,
  U+2000-206F, U+3000-303F, U+FF00-FFEF, U+4E00-9FFF joined by commas; sc-bmp and tc-bmp
  map to that string followed by the one further range U+3400-4DBF.
\<close>

theorem presets_table:
  "map fst PRESETS = [''sc-min'', ''tc-min'', ''sc-bmp'', ''tc-bmp'']
   \<and> dom PRESETS_get = {''sc-min'', ''tc-min'', ''sc-bmp'', ''tc-bmp''}
   \<and> PRESETS_get ''sc-min'' = Some (comma_join min_ranges)
   \<and> PRESETS_get ''tc-min'' = Some (comma_join min_ranges)
   \<and> PRESETS_get ''sc-bmp'' = Some (comma_join (min_ranges @ [''U+3400-4DBF'']))
   \<and> PRESETS_get ''tc-bmp'' = Some (comma_join (min_ranges @ [''U+3400-4DBF'']))
   \<and> PRESETS_get ''sc-bmp'' = Some (comma_join min_ranges @ '',U+3400-4DBF'')"
proof -
  have names: "map fst PRESETS = [''sc-min'', ''tc-min'', ''sc-bmp'', ''tc-bmp'']"
    by (simp add: PRESETS_def)
  have "dom PRESETS_get = fst ` set PRESETS"
    unfolding PRESETS_get_def by (rule dom_map_of_conv_image_fst)
  then have keys: "dom PRESETS_get = {''sc-min'', ''tc-min'', ''sc-bmp'', ''tc-bmp''}"
    by (simp add: PRESETS_def)
  have vals: "PRESETS_get ''sc-min'' = Some (comma_join min_ranges)"
    "PRESETS_get ''tc-min'' = Some (comma_join min_ranges)"
    "PRESETS_get ''sc-bmp'' = Some (comma_join (min_ranges @ [''U+3400-4DBF'']))"
    "PRESETS_get ''tc-bmp'' = Some (comma_join (min_ranges @ [''U+3400-4DBF'']))"
    "PRESETS_get ''sc-bmp'' = Some (comma_join min_ranges @ '',U+3400-4DBF'')"
    by (simp_all add: PRESETS_get_def PRESETS_def min_ranges_def)
  from names keys vals show ?thesis by simp
qed

section \<open>Composition of actions\<close>

lemma and_then_Ok [simp]: "m w = (Ok x, w') \<Longrightarrow> and_then m f w = f x w'"
  by (simp add: and_then_def)

lemma and_then_Raise [simp]: "m w = (Raise e, w') \<Longrightarrow> and_then m f w = (Raise e, w')"
  by (simp add: and_then_def)

lemma and_then_SysExit [simp]: "m w = (SysExit n, w') \<Longrightarrow> and_then m f w = (SysExit n, w')"
  by (simp add: and_then_def)

lemma and_then_cases:
  obtains x w' where "m w = (Ok x, w')" "and_then m f w = f x w'"
  | e w' where "m w = (Raise e, w')" "and_then m f w = (Raise e, w')"
  | n w' where "m w = (SysExit n, w')" "and_then m f w = (SysExit n, w')"
proof (cases "m w")
  case (Pair r w')
  then show ?thesis by (cases r) (auto intro: that)
qed

lemma preservesD: "preserves R m \<Longrightarrow> R w (snd (m w))"
  by (simp add: preserves_def)

lemma preserves_and_then:
  assumes R: "preorder_on_worlds R" and m: "preserves R m" and f: "\<And>x. preserves R (f x)"
  shows "preserves R (and_then m f)"
proof -
  have "R w (snd (and_then m f w))" for w
  proof (rule and_then_cases [of m w f])
    fix x w' assume *: "m w = (Ok x, w')" "and_then m f w = f x w'"
    have "R w w'" using preservesD [OF m, of w] * by simp
    moreover have "R w' (snd (f x w'))" using preservesD [OF f] .
    ultimately show ?thesis using R * unfolding preorder_on_worlds_def by metis
  next
    fix e w' assume *: "m w = (Raise e, w')" "and_then m f w = (Raise e, w')"
    then show ?thesis using preservesD [OF m, of w] by simp
  next
    fix n w' assume *: "m w = (SysExit n, w')" "and_then m f w = (SysExit n, w')"
    then show ?thesis using preservesD [OF m, of w] by simp
  qed
  then show ?thesis by (simp add: preserves_def)
qed

lemma descriptor_try:
  "descriptor env w p =
    (case check_ttf_tables_try env (fs w) p of
       Inl e \<Rightarrow> (False, False, False, - 1)
     | Inr r \<Rightarrow> r)"
  by (simp add: descriptor_def check_ttf_tables_def split: sum.splits)

lemma check_ttf_tables_eq: "check_ttf_tables env p w = (Ok (descriptor env w p), w)"
  by (simp add: check_ttf_tables_def descriptor_try split: sum.splits)

lemma descriptor_ok:
  "descriptor env w p = (ok, has_glyf, has_loca, n) \<Longrightarrow> ok = (has_glyf \<and> has_loca)"
  by (auto simp: descriptor_try check_ttf_tables_try_def Let_def split: sum.splits if_splits)

lemma and_then_assoc:
  "and_then (and_then m f) g w = and_then m (\<lambda>x. and_then (f x) g) w"
  by (simp add: and_then_def split: prod.splits result.splits)

lemma and_then_sys_exit: "and_then (sys_exit n) f w = (SysExit n, w)"
  by (simp add: and_then_def sys_exit_def)

lemma main_prelude:
  "main env a w =
    and_then (prelude env a)
      (\<lambda>tmpdir. try_finally
         (and_then (produce_output env a tmpdir) (\<lambda>_. final_verification env a))
         (rmtree env tmpdir)) w"
proof (cases "isfile env (fs w) (in_font a)")
  case False
  have "prelude env a w = (SysExit 1, w\<lparr>stderr := stderr w @ [''ERROR: input not found: '' @ in_font a]\<rparr>)"
    using False by (simp add: prelude_def and_then_def print_err_def sys_exit_def)
  moreover have "main env a w = (SysExit 1, w\<lparr>stderr := stderr w @ [''ERROR: input not found: '' @ in_font a]\<rparr>)"
    using False by (simp add: main_def and_then_def print_err_def sys_exit_def)
  ultimately show ?thesis by simp
next
  case True
  have p: "prelude env a w =
      and_then (makedirs env (parent_dir env (out_font a))) (\<lambda>_. mkdtemp env ''cjk2ttf_'') w"
    using True by (simp add: prelude_def)
  have "and_then (prelude env a)
      (\<lambda>tmpdir. try_finally
         (and_then (produce_output env a tmpdir) (\<lambda>_. final_verification env a))
         (rmtree env tmpdir)) w =
    and_then (and_then (makedirs env (parent_dir env (out_font a))) (\<lambda>_. mkdtemp env ''cjk2ttf_''))
      (\<lambda>tmpdir. try_finally
         (and_then (produce_output env a tmpdir) (\<lambda>_. final_verification env a))
         (rmtree env tmpdir)) w"
    by (simp add: and_then_def [of "prelude env a"] and_then_def [of "and_then _ _"] p)
  also have "\<dots> = main env a w"
    using True
    by (simp add: and_then_assoc main_def try_body_def produce_output_def otf_input_def Let_def)
  finally show ?thesis by simp
qed

lemma intermediate_check_eq:
  "intermediate_check env a tmpdir w =
    (let d = descriptor env w (join tmpdir ''intermediate.ttf'') in
     if rejected a d then
       (SysExit 2, w\<lparr>stderr := stderr w @
          [''ERROR: Converted TTF invalid or too few glyphs (glyf=''
            @ str_bool (fst (snd d)) @ '', loca='' @ str_bool (fst (snd (snd d)))
            @ '', numGlyphs='' @ str_int (snd (snd (snd d))) @ '').'']\<rparr>)
     else (Ok (), w))"
proof -
  obtain ok g l n where d: "descriptor env w (join tmpdir ''intermediate.ttf'') = (ok, g, l, n)"
    by (metis prod_cases4)
  have "ok = (g \<and> l)" using descriptor_ok [OF d] .
  then show ?thesis
    by (simp add: intermediate_check_def check_ttf_tables_eq d rejected_def print_err_def
        sys_exit_def done_ok_def and_then_def)
qed

lemma print_out_None:
  "stdout_error env s = None \<Longrightarrow> print_out env s w = (Ok (), w\<lparr>stdout := stdout w @ [s]\<rparr>)"
  by (simp add: print_out_def)

lemma print_out_Some:
  "stdout_error env s = Some e \<Longrightarrow> print_out env s w = (Raise e, w)"
  by (simp add: print_out_def)

lemma print_sizes_cases:
  "print_sizes env a w = (Ok (), w)
    \<or> (\<exists>s. print_sizes env a w = (Ok (), w\<lparr>stdout := stdout w @ [s]\<rparr>))"
  by (auto simp add: print_sizes_def try_except_pass_def print_out_def
      split: sum.splits option.splits)

lemma print_sizes_result: "fst (print_sizes env a w) = Ok ()"
  using print_sizes_cases [of env a w] by auto

lemma print_sizes_fs: "fs (snd (print_sizes env a w)) = fs w"
  using print_sizes_cases [of env a w] by auto

lemma print_sizes_invocations: "invocations (snd (print_sizes env a w)) = invocations w"
  using print_sizes_cases [of env a w] by auto

lemma final_verification_result:
  "fst (final_verification env a w) =
    (if rejected a (descriptor env w (out_font a)) then
       (case stdout_error env (failure_line a) of None \<Rightarrow> SysExit 3 | Some e \<Rightarrow> Raise e)
     else
       (case first_error env (success_lines a) of None \<Rightarrow> Ok () | Some e \<Rightarrow> Raise e))"
proof -
  obtain ok g l n where d: "descriptor env w (out_font a) = (ok, g, l, n)"
    by (metis prod_cases4)
  have "ok = (g \<and> l)" using descriptor_ok [OF d] .
  then show ?thesis
    by (simp add: final_verification_def check_ttf_tables_eq d rejected_def print_err_def
        print_out_def print_sizes_result sys_exit_def and_then_def Let_def
        failure_line_def success_lines_def
        split: option.splits)
qed

lemma final_verification_fs: "fs (snd (final_verification env a w)) = fs w"
proof -
  obtain ok g l n where d: "descriptor env w (out_font a) = (ok, g, l, n)"
    by (metis prod_cases4)
  show ?thesis
    by (simp add: final_verification_def check_ttf_tables_eq d print_err_def
        print_out_def print_sizes_fs sys_exit_def and_then_def Let_def split: option.splits)
qed

lemma final_verification_invocations:
  "invocations (snd (final_verification env a w)) = invocations w"
proof -
  obtain ok g l n where d: "descriptor env w (out_font a) = (ok, g, l, n)"
    by (metis prod_cases4)
  show ?thesis
    by (simp add: final_verification_def check_ttf_tables_eq d print_err_def
        print_out_def print_sizes_invocations sys_exit_def and_then_def Let_def
        split: option.splits)
qed

section \<open>Relations preserved by the stages\<close>

lemma preservesI: "(\<And>w. R w (snd (m w))) \<Longrightarrow> preserves R m"
  by (simp add: preserves_def)

lemma preserves_if:
  "(c \<Longrightarrow> preserves R m1) \<Longrightarrow> (\<not> c \<Longrightarrow> preserves R m2) \<Longrightarrow> preserves R (if c then m1 else m2)"
  by simp

lemma preserves_case_option:
  "(u = None \<Longrightarrow> preserves R m1) \<Longrightarrow> (\<And>x. u = Some x \<Longrightarrow> preserves R (m2 x))
    \<Longrightarrow> preserves R (case u of None \<Rightarrow> m1 | Some x \<Rightarrow> m2 x)"
  by (cases u) simp_all

lemma preserves_case_prod4:
  "(\<And>a b c d. preserves R (f a b c d)) \<Longrightarrow> preserves R (\<lambda>w. (case x of (a, b, c, d) \<Rightarrow> f a b c d) w)"
  by (cases x) simp

lemma preorder_same_dirs: "preorder_on_worlds same_dirs"
  by (simp add: preorder_on_worlds_def same_dirs_def)

lemma preorder_grows_stdout: "preorder_on_worlds grows_stdout"
  by (auto simp: preorder_on_worlds_def grows_stdout_def)

lemma preorder_selected_only: "preorder_on_worlds (selected_only a)"
  unfolding preorder_on_worlds_def selected_only_def
proof (intro conjI allI impI)
  fix w show "\<exists>new. invocations w = invocations w @ new \<and> (\<forall>l. Pyftsubset l \<in> set new \<longrightarrow> l \<noteq> [] \<and> last l = selection a)"
    by (rule exI [of _ "[]"]) simp
next
  fix u v w
  assume "\<exists>new. invocations v = invocations u @ new \<and> (\<forall>l. Pyftsubset l \<in> set new \<longrightarrow> l \<noteq> [] \<and> last l = selection a)"
    and "\<exists>new. invocations w = invocations v @ new \<and> (\<forall>l. Pyftsubset l \<in> set new \<longrightarrow> l \<noteq> [] \<and> last l = selection a)"
  then obtain n1 n2 where 1: "invocations v = invocations u @ n1" "\<forall>l. Pyftsubset l \<in> set n1 \<longrightarrow> l \<noteq> [] \<and> last l = selection a"
    and 2: "invocations w = invocations v @ n2" "\<forall>l. Pyftsubset l \<in> set n2 \<longrightarrow> l \<noteq> [] \<and> last l = selection a"
    by blast
  show "\<exists>new. invocations w = invocations u @ new \<and> (\<forall>l. Pyftsubset l \<in> set new \<longrightarrow> l \<noteq> [] \<and> last l = selection a)"
    by (rule exI [of _ "n1 @ n2"]) (use 1 2 in auto)
qed

text \<open>The atomic actions, for the three relations.\<close>

lemma write_file_cases:
  "write_file env p b w = (Ok (), w\<lparr>fs := (fs w)\<lparr>files := (files (fs w))(resolve env p \<mapsto> b)\<rparr>\<rparr>)
   \<or> (\<exists>e. write_file env p b w = (Raise e, w))"
  by (simp add: write_file_def Let_def)

lemma same_dirs_atomic:
  "preserves same_dirs (print_out env s)"
  "preserves same_dirs (print_err s)"
  "preserves same_dirs (sys_exit n :: unit action)"
  "preserves same_dirs (raise_exc e :: unit action)"
  "preserves same_dirs done_ok"
  "preserves same_dirs (check_ttf_tables env p)"
  "preserves same_dirs (write_file env p b)"
  "preserves same_dirs (copyfile env src dst)"
  "preserves same_dirs (run_pyftsubset env l)"
  "preserves same_dirs (ff_convert_otf_to_ttf env otf ttf)"
  "preserves same_dirs (print_sizes env a)"
  by (auto simp: preserves_def same_dirs_def print_out_def print_err_def sys_exit_def
      raise_exc_def done_ok_def check_ttf_tables_eq write_file_def copyfile_def
      run_pyftsubset_def ff_convert_otf_to_ttf_def print_sizes_def try_except_pass_def Let_def
      split: option.splits sum.splits prod.splits)

lemma grows_stdout_atomic:
  "preserves grows_stdout (print_out env s)"
  "preserves grows_stdout (print_err s)"
  "preserves grows_stdout (sys_exit n :: unit action)"
  "preserves grows_stdout (raise_exc e :: unit action)"
  "preserves grows_stdout done_ok"
  "preserves grows_stdout (check_ttf_tables env p)"
  "preserves grows_stdout (write_file env p b)"
  "preserves grows_stdout (copyfile env src dst)"
  "preserves grows_stdout (run_pyftsubset env l)"
  "preserves grows_stdout (ff_convert_otf_to_ttf env otf ttf)"
  "preserves grows_stdout (print_sizes env a)"
  by (auto simp: preserves_def grows_stdout_def print_out_def print_err_def sys_exit_def
      raise_exc_def done_ok_def check_ttf_tables_eq write_file_def copyfile_def
      run_pyftsubset_def ff_convert_otf_to_ttf_def print_sizes_def try_except_pass_def Let_def
      split: option.splits sum.splits prod.splits)

lemma selected_only_same:
  "invocations w' = invocations w \<Longrightarrow> selected_only a w w'"
  unfolding selected_only_def by (intro exI [of _ "[]"]) simp

lemma selected_only_atomic:
  "preserves (selected_only a) (print_out env s)"
  "preserves (selected_only a) (print_err s)"
  "preserves (selected_only a) (sys_exit n :: unit action)"
  "preserves (selected_only a) (raise_exc e :: unit action)"
  "preserves (selected_only a) done_ok"
  "preserves (selected_only a) (check_ttf_tables env p)"
  "preserves (selected_only a) (write_file env p b)"
  "preserves (selected_only a) (copyfile env src dst)"
  "preserves (selected_only a) (print_sizes env a')"
  by (auto intro!: preservesI selected_only_same
      simp: print_out_def print_err_def sys_exit_def
      raise_exc_def done_ok_def check_ttf_tables_eq write_file_def copyfile_def
      print_sizes_def try_except_pass_def Let_def
      split: option.splits sum.splits prod.splits)

lemma selected_only_ff: "preserves (selected_only a) (ff_convert_otf_to_ttf env otf ttf)"
proof (rule preservesI)
  fix w
  show "selected_only a w (snd (ff_convert_otf_to_ttf env otf ttf w))"
  proof (cases "which env ''fontforge''")
    case None
    then show ?thesis by (simp add: ff_convert_otf_to_ttf_def selected_only_same)
  next
    case (Some ff)
    have "invocations (snd (ff_convert_otf_to_ttf env otf ttf w)) =
      invocations w @ [Subprocess [ff, ''-lang=py'', ''-c'', ff_script, otf, ttf]]"
      using Some
      by (simp add: ff_convert_otf_to_ttf_def Let_def write_file_def split: prod.splits option.splits)
    then show ?thesis unfolding selected_only_def
      by (intro exI [of _ "[Subprocess [ff, ''-lang=py'', ''-c'', ff_script, otf, ttf]]"]) simp
  qed
qed

lemma selected_only_pyftsubset:
  assumes "l \<noteq> []" "last l = selection a"
  shows "preserves (selected_only a) (run_pyftsubset env l)"
proof (rule preservesI)
  fix w
  have "invocations (snd (run_pyftsubset env l w)) = invocations w @ [Pyftsubset l]"
    by (simp add: run_pyftsubset_def Let_def write_file_def split: sum.splits)
  then show "selected_only a w (snd (run_pyftsubset env l w))"
    unfolding selected_only_def using assms
    by (intro exI [of _ "[Pyftsubset l]"]) simp
qed

lemma given_truthy: "given x = truthy x"
  by (cases x) (simp_all add: given_def truthy_def opt_str_def)

lemma text_file_selection:
  "truthy (text_file a) \<Longrightarrow> ''--text-file='' @ opt_str (text_file a) = selection a"
  by (simp add: selection_def given_truthy)

lemma unicodes_selection:
  assumes "\<not> truthy (text_file a)"
    and "(if truthy (unicodes a) then unicodes a
          else PRESETS_get (if truthy (preset a) then opt_str (preset a) else ''sc-min'')) = Some us"
  shows "''--unicodes='' @ us = selection a"
proof (cases "truthy (unicodes a)")
  case True
  then have "opt_str (unicodes a) = us" using assms(2) by (simp add: opt_str_def)
  then show ?thesis using assms(1) True by (simp add: selection_def given_truthy)
next
  case False
  then show ?thesis using assms
    by (simp add: selection_def given_truthy range_of_def split: if_splits)
qed

lemma stages_preserve:
  assumes pre: "preorder_on_worlds R"
    and atoms:
      "\<And>s. preserves R (print_out env s)"
      "\<And>s. preserves R (print_err s)"
      "\<And>n. preserves R (sys_exit n :: unit action)"
      "\<And>e. preserves R (raise_exc e :: unit action)"
      "preserves R done_ok"
      "\<And>p. preserves R (check_ttf_tables env p)"
      "\<And>src dst. preserves R (copyfile env src dst)"
      "\<And>otf ttf. preserves R (ff_convert_otf_to_ttf env otf ttf)"
      "preserves R (print_sizes env a)"
    and sub: "\<And>l. l \<noteq> [] \<Longrightarrow> last l = selection a \<Longrightarrow> preserves R (run_pyftsubset env l)"
  shows stage_A_preserves: "preserves R (stage_A env a t)"
    and stage_B_preserves: "preserves R (stage_B env t)"
    and intermediate_check_preserves: "preserves R (intermediate_check env a t)"
    and stage_C_preserves: "preserves R (stage_C env a t)"
    and ttf_branch_preserves: "preserves R (ttf_branch env a)"
    and final_verification_preserves: "preserves R (final_verification env a)"
    and otf_branch_preserves: "preserves R (otf_branch env a t)"
    and produce_output_preserves: "preserves R (produce_output env a t)"
    and try_block_preserves:
      "preserves R (and_then (produce_output env a t) (\<lambda>_. final_verification env a))"
proof -
  note intros = preserves_and_then [OF pre] preserves_if preserves_case_option atoms
  show A: "preserves R (stage_A env a t)"
    unfolding stage_A_def Let_def
    by (intro intros sub) (simp_all only: last.simps list.distinct if_False if_True simp_thms text_file_selection unicodes_selection)
  show B: "preserves R (stage_B env t)"
    unfolding stage_B_def Let_def by (intro intros)
  show chk: "preserves R (intermediate_check env a t)"
    unfolding intermediate_check_def
    by (intro intros) (auto intro!: intros)
  show C: "preserves R (stage_C env a t)"
    unfolding stage_C_def Let_def
    by (intro intros sub) (simp_all only: last.simps list.distinct if_False if_True simp_thms text_file_selection unicodes_selection)
  show ttf: "preserves R (ttf_branch env a)"
    unfolding ttf_branch_def Let_def
    by (intro intros sub) (simp_all only: last.simps list.distinct if_False if_True simp_thms text_file_selection unicodes_selection)
  show fin: "preserves R (final_verification env a)"
    unfolding final_verification_def Let_def
    by (intro intros) (auto intro!: intros)
  show otf: "preserves R (otf_branch env a t)"
    unfolding otf_branch_def by (intro intros A B chk C)
  show prod: "preserves R (produce_output env a t)"
    unfolding produce_output_def by (intro intros otf ttf)
  show "preserves R (and_then (produce_output env a t) (\<lambda>_. final_verification env a))"
    by (intro intros prod fin)
qed

lemmas same_dirs_stages =
  stages_preserve [where R = same_dirs, OF preorder_same_dirs same_dirs_atomic(1-6)
    same_dirs_atomic(8) same_dirs_atomic(10) same_dirs_atomic(11) same_dirs_atomic(9)]

lemmas grows_stdout_stages =
  stages_preserve [where R = grows_stdout, OF preorder_grows_stdout grows_stdout_atomic(1-6)
    grows_stdout_atomic(8) grows_stdout_atomic(10) grows_stdout_atomic(11) grows_stdout_atomic(9)]

lemmas selected_only_stages =
  stages_preserve [where R = "selected_only a" and a = a for a, OF preorder_selected_only selected_only_atomic(1-6)
    selected_only_atomic(8) selected_only_ff selected_only_atomic(9) selected_only_pyftsubset]

lemma prelude_cases:
  obtains
    (missing) "\<not> isfile env (fs w) (in_font a)"
      "prelude env a w = (SysExit 1, w\<lparr>stderr := stderr w @ [''ERROR: input not found: '' @ in_font a]\<rparr>)"
  | (failed) e w' where "isfile env (fs w) (in_font a)" "prelude env a w = (Raise e, w')"
      "files (fs w') = files (fs w)" "stdout w' = stdout w" "invocations w' = invocations w"
  | (ready) tmpdir w2 where "isfile env (fs w) (in_font a)" "prelude env a w = (Ok tmpdir, w2)"
proof (cases "isfile env (fs w) (in_font a)")
  case False
  then have "prelude env a w = (SysExit 1, w\<lparr>stderr := stderr w @ [''ERROR: input not found: '' @ in_font a]\<rparr>)"
    by (simp add: prelude_def and_then_def print_err_def sys_exit_def)
  with False show ?thesis by (rule missing)
next
  case True
  then have p: "prelude env a w =
      and_then (makedirs env (parent_dir env (out_font a))) (\<lambda>_. mkdtemp env ''cjk2ttf_'') w"
    by (simp add: prelude_def)
  obtain r w' where rw: "prelude env a w = (r, w')" by (cases "prelude env a w")
  show ?thesis
  proof (cases r)
    case (Ok t)
    with rw True show ?thesis by (auto intro: ready)
  next
    case (Raise e)
    have "files (fs w') = files (fs w) \<and> stdout w' = stdout w \<and> invocations w' = invocations w"
      using rw Raise unfolding p
      by (auto simp: and_then_def makedirs_def mkdtemp_def Let_def split: if_splits)
    with rw Raise True show ?thesis by (auto intro: failed)
  next
    case (SysExit n)
    then have False using rw unfolding p
      by (auto simp: and_then_def makedirs_def mkdtemp_def Let_def split: if_splits)
    then show ?thesis ..
  qed
qed

lemma prelude_OkD:
  assumes "prelude env a w = (Ok tmpdir, w2)"
  shows "isfile env (fs w) (in_font a)"
    and "files (fs w2) = files (fs w)"
    and "stdout w2 = stdout w"
    and "stderr w2 = stderr w"
    and "invocations w2 = invocations w"
    and "resolve env tmpdir \<in> dirs (fs w2)"
    and "files (fs w) (resolve env tmpdir) = None"
    and "\<not> prefix (resolve env tmpdir) (parent_dir env (out_font a))"
proof -
  show f: "isfile env (fs w) (in_font a)"
    using assms by (auto simp: prelude_def and_then_def print_err_def sys_exit_def split: if_splits)
  then have p: "and_then (makedirs env (parent_dir env (out_font a))) (\<lambda>_. mkdtemp env ''cjk2ttf_'') w
      = (Ok tmpdir, w2)"
    using assms by (simp add: prelude_def)
  then obtain w1 where m: "makedirs env (parent_dir env (out_font a)) w = (Ok (), w1)"
    and t: "mkdtemp env ''cjk2ttf_'' w1 = (Ok tmpdir, w2)"
    by (auto simp: and_then_def split: prod.splits result.splits)
  from m have w1: "w1 = w\<lparr>fs := (fs w)\<lparr>dirs := dirs (fs w) \<union> set (prefixes (parent_dir env (out_font a)))\<rparr>\<rparr>"
    by (auto simp: makedirs_def split: if_splits)
  from t have name: "tmpdir = mkdtemp_name env ''cjk2ttf_'' (fs w1)"
    and fresh: "resolve env tmpdir \<notin> dirs (fs w1)" "files (fs w1) (resolve env tmpdir) = None"
    and w2: "w2 = w1\<lparr>fs := (fs w1)\<lparr>dirs := insert (resolve env tmpdir) (dirs (fs w1))\<rparr>\<rparr>"
    by (auto simp: mkdtemp_def Let_def split: if_splits)
  show "files (fs w2) = files (fs w)" "stdout w2 = stdout w" "stderr w2 = stderr w"
    "invocations w2 = invocations w"
    by (simp_all add: w1 w2)
  show "resolve env tmpdir \<in> dirs (fs w2)" by (simp add: w2)
  show "files (fs w) (resolve env tmpdir) = None" using fresh(2) by (simp add: w1)
  show "\<not> prefix (resolve env tmpdir) (parent_dir env (out_font a))"
    using fresh(1) by (auto simp: w1)
qed

lemma run_script_ready:
  assumes "prelude env a w = (Ok tmpdir, w2)"
  shows "run_script env a w =
    (outcome_of (fst (and_then (produce_output env a tmpdir) (\<lambda>_. final_verification env a) w2)),
     rmtree env tmpdir
       (snd (and_then (produce_output env a tmpdir) (\<lambda>_. final_verification env a) w2)))"
  using assms by (simp add: run_script_def main_prelude try_finally_def split: prod.splits)

lemma run_script_missing:
  assumes "\<not> isfile env (fs w) (in_font a)"
  shows "run_script env a w =
    (Exit 1, w\<lparr>stderr := stderr w @ [''ERROR: input not found: '' @ in_font a]\<rparr>)"
  using assms
  by (simp add: run_script_def main_def and_then_def print_err_def sys_exit_def outcome_of_def)

lemma run_script_failed:
  assumes "prelude env a w = (Raise e, w')"
  shows "run_script env a w = (Traceback e, w')"
  using assms by (simp add: run_script_def main_prelude outcome_of_def)

section \<open>Exit codes, the missing input and the temporary directory\<close>

lemma and_then_fst_SysExit: "fst (m w) = SysExit n \<Longrightarrow> fst (and_then m f w) = SysExit n"
  by (cases "m w") simp

lemma and_then_fst_Raise: "fst (m w) = Raise e \<Longrightarrow> fst (and_then m f w) = Raise e"
  by (cases "m w") simp

lemma otf_branch_after_AB:
  assumes "stages_AB env a tmpdir w2 = (Ok (), w4)"
  shows "otf_branch env a tmpdir w2 =
    and_then (intermediate_check env a tmpdir) (\<lambda>_. stage_C env a tmpdir) w4"
proof -
  have "otf_branch env a tmpdir w2 =
    and_then (stages_AB env a tmpdir)
      (\<lambda>_. and_then (intermediate_check env a tmpdir) (\<lambda>_. stage_C env a tmpdir)) w2"
    by (simp add: otf_branch_def stages_AB_def and_then_assoc)
  then show ?thesis using assms by simp
qed

text \<open>
  C1, as amended. Take a run that has passed the prelude, with temporary directory
  \<open>tmpdir\<close>. If the input has the extension of an OTF, Stages A and B complete, and
  the tuple that \<open>check_ttf_tables\<close> gives for the intermediate font lacks one of the
  two tables or has a glyph count below \<open>min_glyphs\<close>, the process exits with code 2.
  If the stages that produce the final output complete, on whichever path, and the tuple for
  the output path lacks one of the two tables or has a glyph count below \<open>min_glyphs\<close>,
  the process exits with code 3 when standard output accepts the line with the output path,
  and ends with the exception of standard output uncaught when it refuses the line.
  Otherwise the process exits with code 0 when standard output accepts the two lines that
  report success, and ends with the exception of standard output uncaught when it refuses
  one of them.
\<close>
theorem verification_exit_codes:
  assumes "prelude env a w = (Ok tmpdir, w2)"
  shows "(otf_input a \<and> stages_AB env a tmpdir w2 = (Ok (), w4)
            \<and> rejected a (descriptor env w4 (join tmpdir ''intermediate.ttf''))
          \<longrightarrow> fst (run_script env a w) = Exit 2)
    \<and> (produce_output env a tmpdir w2 = (Ok (), w5)
          \<longrightarrow> fst (run_script env a w) =
              (if rejected a (descriptor env w5 (out_font a)) then
                 (case stdout_error env (failure_line a) of
                    None \<Rightarrow> Exit 3 | Some e \<Rightarrow> Traceback e)
               else
                 (case first_error env (success_lines a) of
                    None \<Rightarrow> Exit 0 | Some e \<Rightarrow> Traceback e)))"
proof (intro conjI impI)
  assume h: "otf_input a \<and> stages_AB env a tmpdir w2 = (Ok (), w4)
    \<and> rejected a (descriptor env w4 (join tmpdir ''intermediate.ttf''))"
  then have "fst (otf_branch env a tmpdir w2) = SysExit 2"
    by (simp add: otf_branch_after_AB and_then_def intermediate_check_eq Let_def)
  then have "fst (and_then (produce_output env a tmpdir) (\<lambda>_. final_verification env a) w2)
      = SysExit 2"
    using h by (simp add: produce_output_def and_then_fst_SysExit)
  then show "fst (run_script env a w) = Exit 2"
    by (simp add: run_script_ready [OF assms] outcome_of_def)
next
  assume h: "produce_output env a tmpdir w2 = (Ok (), w5)"
  then have "fst (and_then (produce_output env a tmpdir) (\<lambda>_. final_verification env a) w2)
      = fst (final_verification env a w5)"
    by simp
  then show "fst (run_script env a w) =
      (if rejected a (descriptor env w5 (out_font a)) then
         (case stdout_error env (failure_line a) of
            None \<Rightarrow> Exit 3 | Some e \<Rightarrow> Traceback e)
       else
         (case first_error env (success_lines a) of
            None \<Rightarrow> Exit 0 | Some e \<Rightarrow> Traceback e))"
    by (simp add: run_script_ready [OF assms] final_verification_result outcome_of_def
        split: option.splits)
qed

text \<open>
  C3. When the input path is not an existing file, the process exits with code 1, and the
  world it leaves differs from the one it started in by one line on standard error: no
  directory was created, no file written and no tool run.
\<close>
theorem missing_input_exits_1:
  assumes "\<not> isfile env (fs w) (in_font a)"
  shows "run_script env a w =
    (Exit 1, w\<lparr>stderr := stderr w @ [''ERROR: input not found: '' @ in_font a]\<rparr>)"
  using assms by (rule run_script_missing)

text \<open>
  C6. In every run that has created its temporary directory, that directory exists when
  the \<^verbatim>\<open>try\<close> block is entered, and when the process ends neither it nor anything
  inside it exists, whatever the outcome of the run.
\<close>
theorem tmpdir_removed:
  assumes "prelude env a w = (Ok tmpdir, w2)"
  shows "resolve env tmpdir \<in> dirs (fs w2)
    \<and> (\<forall>k. prefix (resolve env tmpdir) k \<longrightarrow>
          k \<notin> dirs (fs (snd (run_script env a w)))
          \<and> files (fs (snd (run_script env a w))) k = None)"
proof -
  have "resolve env tmpdir \<in> dirs (fs w2)" using prelude_OkD(6) [OF assms] .
  moreover have "k \<notin> dirs (fs (rmtree env tmpdir w')) \<and> files (fs (rmtree env tmpdir w')) k = None"
    if "prefix (resolve env tmpdir) k" for k w'
    using that by (simp add: rmtree_def Let_def)
  ultimately show ?thesis
    by (simp add: run_script_ready [OF assms])
qed

section \<open>What the stages write\<close>

lemma ensuresI: "(\<And>w x w'. m w = (Ok x, w') \<Longrightarrow> Q w') \<Longrightarrow> ensures m Q"
  by (auto simp: ensures_def)

lemma ensuresD: "ensures m Q \<Longrightarrow> m w = (Ok x, w') \<Longrightarrow> Q w'"
  by (auto simp: ensures_def)

lemma ensures_and_then: "(\<And>x. ensures (f x) Q) \<Longrightarrow> ensures (and_then m f) Q"
  unfolding ensures_def and_then_def by (auto split: prod.splits result.splits)

lemma ensures_if:
  "(c \<Longrightarrow> ensures m1 Q) \<Longrightarrow> (\<not> c \<Longrightarrow> ensures m2 Q) \<Longrightarrow> ensures (if c then m1 else m2) Q"
  by simp

lemma ensures_case_option:
  "(u = None \<Longrightarrow> ensures m1 Q) \<Longrightarrow> (\<And>x. u = Some x \<Longrightarrow> ensures (m2 x) Q)
    \<Longrightarrow> ensures (case u of None \<Rightarrow> m1 | Some x \<Rightarrow> m2 x) Q"
  by (cases u) simp_all

lemma ensures_raise: "ensures (raise_exc e) Q"
  by (simp add: ensures_def raise_exc_def)

lemma write_file_written: "ensures (write_file env p b) (written env p)"
  by (rule ensuresI) (auto simp: write_file_def written_def Let_def split: if_splits)

lemma copyfile_written: "ensures (copyfile env src dst) (written env dst)"
  by (rule ensuresI)
    (auto simp: copyfile_def write_file_def written_def Let_def split: if_splits sum.splits)

lemma output_file_of_explicit:
  assumes "\<forall>s \<in> set rest. \<not> prefix ''--output-file='' s"
  shows "output_file_of (x # (''--output-file='' @ out) # rest) = out"
proof -
  have "filter (prefix ''--output-file='') rest = []"
    using assms by (simp add: filter_empty_conv)
  then show ?thesis
    by (simp add: output_file_of_def)
qed

lemma run_pyftsubset_written:
  assumes "\<forall>s \<in> set rest. \<not> prefix ''--output-file='' s"
  shows "ensures (run_pyftsubset env (x # (''--output-file='' @ out) # rest)) (written env out)"
proof (rule ensuresI)
  fix w u w'
  assume "run_pyftsubset env (x # (''--output-file='' @ out) # rest) w = (Ok u, w')"
  then show "written env out w'"
    unfolding run_pyftsubset_def Let_def output_file_of_explicit [OF assms]
    by (auto simp: write_file_def written_def Let_def split: sum.splits if_splits)
qed

lemma stage_C_written: "ensures (stage_C env a t) (written env (out_font a))"
  unfolding stage_C_def Let_def
  by (intro ensures_and_then ensures_if ensures_case_option ensures_raise copyfile_written
      run_pyftsubset_written) simp_all

lemma ttf_branch_written: "ensures (ttf_branch env a) (written env (out_font a))"
  unfolding ttf_branch_def Let_def
  by (intro ensures_and_then ensures_if ensures_case_option ensures_raise copyfile_written
      run_pyftsubset_written) simp_all

lemma produce_output_written: "ensures (produce_output env a t) (written env (out_font a))"
  unfolding produce_output_def otf_branch_def
  by (intro ensures_and_then ensures_if stage_C_written ttf_branch_written)

lemma prefix_butlast_proper:
  assumes "prefix t k" "t \<noteq> k"
  shows "prefix t (butlast k)"
proof -
  from assms obtain zs where "k = t @ zs" "zs \<noteq> []" by (auto elim: prefixE)
  then show ?thesis by (simp add: butlast_append)
qed

lemma same_dirs_produce:
  "dirs (fs (snd (produce_output env a t w))) = dirs (fs w)"
  using preservesD [OF same_dirs_stages(8)] by (simp add: same_dirs_def)

lemma out_outside_tmp:
  assumes p: "prelude env a w = (Ok tmpdir, w2)"
    and o: "produce_output env a tmpdir w2 = (Ok (), w5)"
  shows "\<not> prefix (resolve env tmpdir) (resolve env (out_font a))"
proof
  assume pre: "prefix (resolve env tmpdir) (resolve env (out_font a))"
  have "written env (out_font a) w5"
    using ensuresD [OF produce_output_written o] .
  moreover have "dirs (fs w5) = dirs (fs w2)"
    using same_dirs_produce [of env a tmpdir w2] o by simp
  ultimately have "resolve env (out_font a) \<notin> dirs (fs w2)"
    by (simp add: written_def)
  then have "resolve env tmpdir \<noteq> resolve env (out_font a)"
    using prelude_OkD(6) [OF p] by auto
  with pre have "prefix (resolve env tmpdir) (parent_dir env (out_font a))"
    unfolding parent_dir_def by (rule prefix_butlast_proper)
  with prelude_OkD(8) [OF p] show False by simp
qed

lemma rmtree_files_outside:
  "\<not> prefix (resolve env d) k \<Longrightarrow> files (fs (rmtree env d w)) k = files (fs w) k"
  by (simp add: rmtree_def Let_def)

lemma rmtree_other [simp]:
  "stdout (rmtree env d w) = stdout w"
  "stderr (rmtree env d w) = stderr w"
  "invocations (rmtree env d w) = invocations w"
  by (simp_all add: rmtree_def Let_def)

lemma read_file_Inr:
  "read_file env fsys p = Inr b \<longleftrightarrow>
    (resolve env p \<notin> dirs fsys \<and> file_name_ok p \<and> files fsys (resolve env p) = Some b)"
  by (auto simp: read_file_def Let_def split: option.splits)

lemma descriptor_same_file:
  assumes "read_file env (fs w) p = Inr b" "read_file env (fs w') p' = Inr b"
  shows "descriptor env w' p' = descriptor env w p"
  using assms
  by (simp add: descriptor_try check_ttf_tables_try_def open_TTFont_def Let_def)

lemma exits_only_and_then:
  "exits_only c m \<Longrightarrow> (\<And>x. exits_only c (f x)) \<Longrightarrow> exits_only c (and_then m f)"
  unfolding exits_only_def and_then_def by (auto split: prod.splits result.splits)

lemma exits_only_if:
  "(b \<Longrightarrow> exits_only c m1) \<Longrightarrow> (\<not> b \<Longrightarrow> exits_only c m2)
    \<Longrightarrow> exits_only c (if b then m1 else m2)"
  by simp

lemma exits_only_case_option:
  "(u = None \<Longrightarrow> exits_only c m1) \<Longrightarrow> (\<And>x. u = Some x \<Longrightarrow> exits_only c (m2 x))
    \<Longrightarrow> exits_only c (case u of None \<Rightarrow> m1 | Some x \<Rightarrow> m2 x)"
  by (cases u) simp_all

lemma exits_only_atomic:
  "exits_only c (print_out env s)"
  "exits_only c (print_err s)"
  "exits_only c (raise_exc e :: unit action)"
  "exits_only c done_ok"
  "exits_only c (check_ttf_tables env p)"
  "exits_only c (write_file env p b)"
  "exits_only c (copyfile env src dst)"
  "exits_only c (run_pyftsubset env l)"
  "exits_only c (ff_convert_otf_to_ttf env otf ttf)"
  "exits_only c (sys_exit c :: unit action)"
  by (auto simp: exits_only_def print_out_def print_err_def sys_exit_def
      raise_exc_def done_ok_def check_ttf_tables_eq write_file_def copyfile_def
      run_pyftsubset_def ff_convert_otf_to_ttf_def Let_def
      split: option.splits sum.splits prod.splits if_splits)

lemma intermediate_check_exits: "exits_only 2 (intermediate_check env a t)"
  by (auto simp: exits_only_def intermediate_check_eq Let_def split: if_splits)

lemma produce_output_exits: "exits_only 2 (produce_output env a t)"
  unfolding produce_output_def otf_branch_def ttf_branch_def stage_A_def stage_B_def stage_C_def
    Let_def
  by (intro exits_only_and_then exits_only_if exits_only_case_option exits_only_atomic
      intermediate_check_exits)

lemma produce_output_exit:
  assumes "produce_output env a t w = (SysExit n, w')"
  shows "n = 2"
  using produce_output_exits assms unfolding exits_only_def by blast

section \<open>The output file\<close>

lemma copyfile_result:
  assumes "copyfile env src dst w = (r, w')"
  shows "(r = Ok () \<and> file_name_ok dst \<and> resolve env dst \<notin> dirs (fs w)
            \<and> (\<exists>b. read_file env (fs w) src = Inr b
            \<and> w' = w\<lparr>fs := (fs w)\<lparr>files := (files (fs w))(resolve env dst \<mapsto> b)\<rparr>\<rparr>))
    \<or> ((\<exists>e. r = Raise e) \<and> w' = w)"
  using assms
  by (auto simp: copyfile_def write_file_def Let_def split: if_splits sum.splits)

lemma try_block_Ok:
  assumes "produce_output env a tmpdir w2 = (Ok (), w5)"
  shows "and_then (produce_output env a tmpdir) (\<lambda>_. final_verification env a) w2
    = final_verification env a w5"
  using assms by simp

lemma final_files_of_output:
  assumes p: "prelude env a w = (Ok tmpdir, w2)"
    and o: "produce_output env a tmpdir w2 = (Ok (), w5)"
  shows "files (fs (snd (run_script env a w))) (resolve env (out_font a))
    = files (fs w5) (resolve env (out_font a))"
  using out_outside_tmp [OF p o]
  by (simp add: run_script_ready [OF p] try_block_Ok [OF o] rmtree_files_outside
      final_verification_fs)

lemma final_dirs_of_output:
  assumes p: "prelude env a w = (Ok tmpdir, w2)"
    and o: "produce_output env a tmpdir w2 = (Ok (), w5)"
    and k: "k \<notin> dirs (fs w5)"
  shows "k \<notin> dirs (fs (snd (run_script env a w)))"
  using k
  by (simp add: run_script_ready [OF p] try_block_Ok [OF o] rmtree_def Let_def
      final_verification_fs)

text \<open>
  C10. When the process exits with code 3, the stages had written the output path, the file
  there failed the final verification, and the same bytes are at the output path when the
  process ends.
\<close>
theorem failed_output_left_in_place:
  assumes "fst (run_script env a w) = Exit 3"
  shows "\<exists>tmpdir w2 w5 b.
    prelude env a w = (Ok tmpdir, w2)
    \<and> produce_output env a tmpdir w2 = (Ok (), w5)
    \<and> rejected a (descriptor env w5 (out_font a))
    \<and> files (fs w5) (resolve env (out_font a)) = Some b
    \<and> files (fs (snd (run_script env a w))) (resolve env (out_font a)) = Some b"
proof (rule prelude_cases [of env w a])
  assume "\<not> isfile env (fs w) (in_font a)"
  then show ?thesis using assms by (simp add: run_script_missing)
next
  fix e w' assume "prelude env a w = (Raise e, w')"
  then show ?thesis using assms by (simp add: run_script_failed)
next
  fix tmpdir w2 assume p: "prelude env a w = (Ok tmpdir, w2)"
  obtain r w5 where o: "produce_output env a tmpdir w2 = (r, w5)"
    by (cases "produce_output env a tmpdir w2")
  show ?thesis
  proof (cases r)
    case (Ok u)
    then have o': "produce_output env a tmpdir w2 = (Ok (), w5)" using o by simp
    have rej: "rejected a (descriptor env w5 (out_font a))"
      using assms
      by (simp add: run_script_ready [OF p] try_block_Ok [OF o'] final_verification_result
          outcome_of_def split: if_splits option.splits)
    have "written env (out_font a) w5"
      using ensuresD [OF produce_output_written o'] .
    then obtain b where b: "files (fs w5) (resolve env (out_font a)) = Some b"
      by (auto simp: written_def)
    then have "files (fs (snd (run_script env a w))) (resolve env (out_font a)) = Some b"
      by (simp add: final_files_of_output [OF p o'])
    with p o' rej b show ?thesis by blast
  next
    case (Raise e)
    then have "fst (run_script env a w) = Traceback e"
      using o by (simp add: run_script_ready [OF p] outcome_of_def)
    then show ?thesis using assms by simp
  next
    case (SysExit n)
    then have "n = 2" using o produce_output_exit by blast
    then have "fst (run_script env a w) = Exit 2"
      using o SysExit by (simp add: run_script_ready [OF p] outcome_of_def)
    then show ?thesis using assms by simp
  qed
qed

lemma ttf_branch_copy:
  assumes "preset a = None" "unicodes a = None" "text_file a = None"
  shows "ttf_branch env a =
    and_then (print_out env (''[T] Copy TTF as-is '' @ arrow @ '' '' @ out_font a))
      (\<lambda>_. copyfile env (in_font a) (out_font a))"
  using assms by (simp add: ttf_branch_def truthy_def opt_str_def Let_def)

lemma output_produced_iff:
  assumes "prelude env a w = (Ok tmpdir, w2)"
  shows "output_produced env a w = (fst (produce_output env a tmpdir w2) = Ok ())"
  using assms by (simp add: output_produced_def)

lemma raise_leaves_output:
  assumes p: "prelude env a w = (Ok tmpdir, w2)"
    and o: "produce_output env a tmpdir w2 = (Raise e, w5)"
    and f: "files (fs w5) = files (fs w2)"
  shows "fst (run_script env a w) = Traceback e"
    and "files (fs (snd (run_script env a w))) (resolve env (out_font a))
          = files (fs w) (resolve env (out_font a))"
proof -
  let ?ko = "resolve env (out_font a)"
  show "fst (run_script env a w) = Traceback e"
    using o by (simp add: run_script_ready [OF p] outcome_of_def)
  have fin: "snd (run_script env a w) = rmtree env tmpdir w5"
    using o by (simp add: run_script_ready [OF p])
  have "files (fs (rmtree env tmpdir w5)) ?ko = files (fs w) ?ko"
  proof (cases "prefix (resolve env tmpdir) ?ko")
    case False
    then show ?thesis using prelude_OkD(2) [OF p] f by (simp add: rmtree_files_outside)
  next
    case True
    have "resolve env tmpdir = ?ko"
    proof (rule ccontr)
      assume "resolve env tmpdir \<noteq> ?ko"
      with True have "prefix (resolve env tmpdir) (parent_dir env (out_font a))"
        unfolding parent_dir_def by (rule prefix_butlast_proper)
      with prelude_OkD(8) [OF p] show False by simp
    qed
    then have "files (fs w) ?ko = None" using prelude_OkD(7) [OF p] by simp
    then show ?thesis using True by (simp add: rmtree_def Let_def)
  qed
  with fin show "files (fs (snd (run_script env a w))) ?ko = files (fs w) ?ko" by simp
qed

text \<open>
  C4. Take an input whose extension is not that of an OTF, and none of the three selection
  options. Then either the run produces its output, and the output path holds the very
  bytes of the input file at the end of the run, whatever the final verification and the
  status lines then do; or it does not (the input is missing, the prelude, the first print
  or \<^verbatim>\<open>copyfile\<close> raises), the run ends with exit code 1 or an uncaught exception,
  and the output path is as it was. A run that exits with code 0 or 3 has produced its
  output.
\<close>
theorem ttf_copy_identical:
  assumes "\<not> otf_input a" "preset a = None" "unicodes a = None" "text_file a = None"
  shows "((output_produced env a w
        \<and> (\<exists>b. files (fs w) (resolve env (in_font a)) = Some b
              \<and> files (fs (snd (run_script env a w))) (resolve env (out_font a)) = Some b))
      \<or> (\<not> output_produced env a w
        \<and> (fst (run_script env a w) = Exit 1 \<or> (\<exists>e. fst (run_script env a w) = Traceback e))
        \<and> files (fs (snd (run_script env a w))) (resolve env (out_font a))
            = files (fs w) (resolve env (out_font a))))
    \<and> (fst (run_script env a w) = Exit 0 \<or> fst (run_script env a w) = Exit 3
        \<longrightarrow> output_produced env a w)"
proof (rule prelude_cases [of env w a])
  assume m: "\<not> isfile env (fs w) (in_font a)"
  then have "prelude env a w
      = (SysExit 1, w\<lparr>stderr := stderr w @ [''ERROR: input not found: '' @ in_font a]\<rparr>)"
    by (simp add: prelude_def and_then_def print_err_def sys_exit_def)
  then have "\<not> output_produced env a w" by (simp add: output_produced_def)
  then show ?thesis using m by (simp add: run_script_missing)
next
  fix e w' assume f: "prelude env a w = (Raise e, w')" "files (fs w') = files (fs w)"
  then have "\<not> output_produced env a w" by (simp add: output_produced_def)
  then show ?thesis using f by (simp add: run_script_failed)
next
  fix tmpdir w2 assume p: "prelude env a w = (Ok tmpdir, w2)"
  let ?L = "''[T] Copy TTF as-is '' @ arrow @ '' '' @ out_font a"
  let ?w3 = "w2\<lparr>stdout := stdout w2 @ [?L]\<rparr>"
  let ?ko = "resolve env (out_font a)"
  have po: "produce_output env a tmpdir w2
      = and_then (print_out env ?L) (\<lambda>_. copyfile env (in_font a) (out_font a)) w2"
    using assms by (simp add: produce_output_def ttf_branch_copy)
  show ?thesis
  proof (cases "stdout_error env ?L")
    case (Some e)
    then have o: "produce_output env a tmpdir w2 = (Raise e, w2)"
      by (simp add: po print_out_Some)
    then have "\<not> output_produced env a w" by (simp add: output_produced_iff [OF p])
    with raise_leaves_output [OF p o] show ?thesis by simp
  next
    case None
    then have po': "produce_output env a tmpdir w2 = copyfile env (in_font a) (out_font a) ?w3"
      by (simp add: po print_out_None)
    obtain r w5 where c: "copyfile env (in_font a) (out_font a) ?w3 = (r, w5)"
      by (cases "copyfile env (in_font a) (out_font a) ?w3")
    from copyfile_result [OF c] show ?thesis
    proof (elim disjE conjE exE)
      fix b assume r: "r = Ok ()" and rd: "read_file env (fs ?w3) (in_font a) = Inr b"
        and w5: "w5 = ?w3\<lparr>fs := (fs ?w3)\<lparr>files := (files (fs ?w3))(?ko \<mapsto> b)\<rparr>\<rparr>"
      have o: "produce_output env a tmpdir w2 = (Ok (), w5)" using po' c r by simp
      have "files (fs w) (resolve env (in_font a)) = Some b"
        using rd prelude_OkD(2) [OF p] by (simp add: read_file_Inr)
      moreover have "files (fs (snd (run_script env a w))) ?ko = Some b"
        by (simp add: final_files_of_output [OF p o] w5)
      moreover have "output_produced env a w"
        using o by (simp add: output_produced_iff [OF p])
      ultimately show ?thesis by blast
    next
      fix e assume r: "r = Raise e" and w5: "w5 = ?w3"
      have o: "produce_output env a tmpdir w2 = (Raise e, ?w3)" using po' c r w5 by simp
      then have "\<not> output_produced env a w" by (simp add: output_produced_iff [OF p])
      with raise_leaves_output [OF p o] show ?thesis by simp
    qed
  qed
qed

lemma stage_C_copy:
  assumes "no_second_subset a"
  shows "stage_C env a tmpdir =
    and_then
      (print_out env (''[C] Skipping second subset. Writing TTF '' @ arrow @ '' '' @ out_font a))
      (\<lambda>_. copyfile env (join tmpdir ''intermediate.ttf'') (out_font a))"
  using assms by (simp add: stage_C_def Let_def)

text \<open>
  C7. Take an OTF input with \<^verbatim>\<open>--no-second-subset\<close> whose Stages A and B complete
  and whose intermediate font passes the check. Then the run invokes no tool after Stage B,
  and either the run ends with an uncaught exception (\<^verbatim>\<open>copyfile\<close> or a print
  raises), or the process exits with code 0, the output path
  holds the bytes of the intermediate font, and \<open>check_ttf_tables\<close> gives for the output
  the tuple it gave for the intermediate font, glyph count included.
\<close>
theorem no_second_subset_copies:
  assumes p: "prelude env a w = (Ok tmpdir, w2)"
    and otf: "otf_input a"
    and skip: "no_second_subset a"
    and ab: "stages_AB env a tmpdir w2 = (Ok (), w4)"
    and pass: "\<not> rejected a (descriptor env w4 (join tmpdir ''intermediate.ttf''))"
  shows "invocations (snd (run_script env a w)) = invocations w4
    \<and> ((fst (run_script env a w) = Exit 0
          \<and> (\<exists>b. files (fs w4) (resolve env (join tmpdir ''intermediate.ttf'')) = Some b
                \<and> files (fs (snd (run_script env a w))) (resolve env (out_font a)) = Some b)
          \<and> descriptor env (snd (run_script env a w)) (out_font a)
              = descriptor env w4 (join tmpdir ''intermediate.ttf''))
       \<or> (\<exists>e. fst (run_script env a w) = Traceback e))"
proof -
  let ?int = "join tmpdir ''intermediate.ttf''"
  let ?ko = "resolve env (out_font a)"
  let ?L = "''[C] Skipping second subset. Writing TTF '' @ arrow @ '' '' @ out_font a"
  let ?w4' = "w4\<lparr>stdout := stdout w4 @ [?L]\<rparr>"
  have chk: "intermediate_check env a tmpdir w4 = (Ok (), w4)"
    using pass by (simp add: intermediate_check_eq Let_def)
  have po: "produce_output env a tmpdir w2
      = and_then (print_out env ?L) (\<lambda>_. copyfile env ?int (out_font a)) w4"
    using otf by (simp add: produce_output_def otf_branch_after_AB [OF ab] chk
        stage_C_copy [OF skip])
  show ?thesis
  proof (cases "stdout_error env ?L")
    case (Some e)
    then have o: "produce_output env a tmpdir w2 = (Raise e, w4)"
      by (simp add: po print_out_Some)
    then have "fst (run_script env a w) = Traceback e"
      "invocations (snd (run_script env a w)) = invocations w4"
      by (simp_all add: run_script_ready [OF p] outcome_of_def)
    then show ?thesis by blast
  next
    case None
    then have po': "produce_output env a tmpdir w2 = copyfile env ?int (out_font a) ?w4'"
      by (simp add: po print_out_None)
    obtain r w5 where c: "copyfile env ?int (out_font a) ?w4' = (r, w5)"
      by (cases "copyfile env ?int (out_font a) ?w4'")
    from copyfile_result [OF c] show ?thesis
    proof (elim disjE conjE exE)
      fix b assume r: "r = Ok ()" and ok: "file_name_ok (out_font a)"
        and nd: "?ko \<notin> dirs (fs ?w4')"
        and rd: "read_file env (fs ?w4') ?int = Inr b"
        and w5: "w5 = ?w4'\<lparr>fs := (fs ?w4')\<lparr>files := (files (fs ?w4'))(?ko \<mapsto> b)\<rparr>\<rparr>"
      have o: "produce_output env a tmpdir w2 = (Ok (), w5)" using po' c r by simp
      have r4: "read_file env (fs w4) ?int = Inr b" using rd by simp
      then have b4: "files (fs w4) (resolve env ?int) = Some b" by (simp add: read_file_Inr)
      have b5: "files (fs w5) ?ko = Some b" by (simp add: w5)
      have nd5: "?ko \<notin> dirs (fs w5)" using nd by (simp add: w5)
      have r5: "read_file env (fs w5) (out_font a) = Inr b"
        using ok nd5 b5 by (simp add: read_file_Inr)
      have d5: "descriptor env w5 (out_font a) = descriptor env w4 ?int"
        using r4 r5 by (rule descriptor_same_file)
      have fin: "files (fs (snd (run_script env a w))) ?ko = Some b"
        by (simp add: final_files_of_output [OF p o] b5)
      have "read_file env (fs (snd (run_script env a w))) (out_font a) = Inr b"
        using ok fin final_dirs_of_output [OF p o nd5] by (simp add: read_file_Inr)
      with r4 have same:
        "descriptor env (snd (run_script env a w)) (out_font a) = descriptor env w4 ?int"
        by (rule descriptor_same_file)
      have inv: "invocations (snd (run_script env a w)) = invocations w4"
        by (simp add: run_script_ready [OF p] try_block_Ok [OF o] final_verification_invocations
            w5)
      have out: "fst (run_script env a w) =
          (case first_error env (success_lines a) of None \<Rightarrow> Exit 0 | Some e \<Rightarrow> Traceback e)"
        using pass
        by (simp add: run_script_ready [OF p] try_block_Ok [OF o] final_verification_result
            outcome_of_def d5 split: option.splits)
      show ?thesis
      proof (cases "first_error env (success_lines a)")
        case None
        with out have "fst (run_script env a w) = Exit 0" by simp
        with same inv b4 fin show ?thesis by blast
      next
        case (Some e)
        with out have "fst (run_script env a w) = Traceback e" by simp
        with inv show ?thesis by blast
      qed
    next
      fix e assume r: "r = Raise e" and w5: "w5 = ?w4'"
      have o: "produce_output env a tmpdir w2 = (Raise e, ?w4')" using po' c r w5 by simp
      then have "fst (run_script env a w) = Traceback e"
        "invocations (snd (run_script env a w)) = invocations w4"
        by (simp_all add: run_script_ready [OF p] outcome_of_def)
      then show ?thesis by blast
    qed
  qed
qed

lemma preset_range_defined:
  assumes "valid_args a"
  shows "PRESETS_get (if truthy (preset a) then opt_str (preset a) else ''sc-min'') \<noteq> None"
proof (cases "preset a")
  case None
  then show ?thesis by (simp add: truthy_def opt_str_def PRESETS_get_def PRESETS_def)
next
  case (Some p)
  then have "p \<in> set (map fst PRESETS)" using assms by (simp add: valid_args_def)
  then have "PRESETS_get p \<noteq> None \<and> PRESETS_get ''sc-min'' \<noteq> None"
    by (auto simp: PRESETS_get_def PRESETS_def)
  then show ?thesis using Some by (simp add: opt_str_def)
qed

lemma human_size_examples:
  "map human_size [0, 1023, 1024, 1280, 1048524, 1048575, 1048576, 5000000000, 2000000000000]
    = [''0.0 B'', ''1023.0 B'', ''1.0 KB'', ''1.2 KB'', ''1023.9 KB'', ''1024.0 KB'',
       ''1.0 MB'', ''4.7 GB'', ''1.8 TB'']"
  by (simp add: human_size_def fmt_1f_def Let_def)

lemma selection_claimed:
  assumes "text_file a \<noteq> Some []" "unicodes a \<noteq> Some []" "preset a \<noteq> Some []"
  shows "selection a = claimed_selection a"
  using assms
  by (auto simp: selection_def claimed_selection_def given_def opt_str_def split: option.splits)

text \<open>
  C2, as amended. In every run, each invocation of the subsetter (Stage A, Stage C and the
  direct path are the only ones) gets as its last argument the option that \<open>selection\<close>
  computes: the text file if one is given and not empty, else the explicit Unicode spec if
  one is given and not empty, else the range string of the named preset, else that of
  sc-min. Where no given value is the empty string this is the precedence as the
  specification words it.
\<close>
theorem subsetting_selection:
  "(\<forall>l. Pyftsubset l \<in> set (new_invocations env a w) \<longrightarrow> l \<noteq> [] \<and> last l = selection a)
   \<and> (text_file a \<noteq> Some [] \<and> unicodes a \<noteq> Some [] \<and> preset a \<noteq> Some []
        \<longrightarrow> selection a = claimed_selection a)"
proof -
  have "l \<noteq> [] \<and> last l = selection a"
    if l: "Pyftsubset l \<in> set (new_invocations env a w)" for l
  proof (rule prelude_cases [of env w a])
    assume "\<not> isfile env (fs w) (in_font a)"
    then show ?thesis using l by (simp add: new_invocations_def run_script_missing)
  next
    fix e w' assume "prelude env a w = (Raise e, w')" "invocations w' = invocations w"
    then show ?thesis using l by (simp add: new_invocations_def run_script_failed)
  next
    fix tmpdir w2 assume p: "prelude env a w = (Ok tmpdir, w2)"
    let ?w' = "snd (and_then (produce_output env a tmpdir) (\<lambda>_. final_verification env a) w2)"
    have "selected_only a w2 ?w'"
      using preservesD [OF selected_only_stages(9)] .
    then obtain new where new: "invocations ?w' = invocations w2 @ new"
      and sel: "\<forall>l. Pyftsubset l \<in> set new \<longrightarrow> l \<noteq> [] \<and> last l = selection a"
      unfolding selected_only_def by blast
    have "new_invocations env a w = new"
      using new prelude_OkD(5) [OF p] by (simp add: new_invocations_def run_script_ready [OF p])
    with l sel show ?thesis by blast
  qed
  then show ?thesis by (simp add: selection_claimed)
qed

text \<open>
  C5, as amended. \<open>check_ttf_tables\<close> always returns, and leaves the world as it is. When
  the font cannot be opened, or its maxp table cannot be read, the result is
  \<open>(False, False, False, -1)\<close>. Otherwise it is the conjunction of the two table tests,
  the two tests, and the glyph count of the maxp table when the font has one, and -1 when
  it has none.
\<close>
theorem check_ttf_tables_total:
  "check_ttf_tables env p w =
    (Ok (case open_TTFont env (fs w) p of
           Inl e \<Rightarrow> (False, False, False, - 1)
         | Inr tf \<Rightarrow>
            (if ''maxp'' \<in> set (tables tf) then
               (case maxp_numGlyphs tf of
                  Inl e \<Rightarrow> (False, False, False, - 1)
                | Inr n \<Rightarrow>
                   (''glyf'' \<in> set (tables tf) \<and> ''loca'' \<in> set (tables tf),
                    ''glyf'' \<in> set (tables tf), ''loca'' \<in> set (tables tf), n))
             else
               (''glyf'' \<in> set (tables tf) \<and> ''loca'' \<in> set (tables tf),
                ''glyf'' \<in> set (tables tf), ''loca'' \<in> set (tables tf), - 1))), w)"
  by (simp add: check_ttf_tables_def check_ttf_tables_try_def Let_def split: sum.splits)

section \<open>The extension test\<close>

lemma rfind_mem: "0 \<le> rfind c xs \<longleftrightarrow> c \<in> set xs"
  by (induction xs) (auto simp: Let_def)

lemma rfind_lower: "- 1 \<le> rfind c xs"
  by (induction xs) (auto simp: Let_def)

lemma rfind_upper: "rfind c xs < int (length xs)"
  by (induction xs) (auto simp: Let_def)

lemma rfind_absent: "c \<notin> set xs \<Longrightarrow> rfind c xs = - 1"
  using rfind_mem [of c xs] rfind_lower [of c xs] by linarith

lemma rfind_append:
  "rfind c (xs @ ys) = (if c \<in> set ys then int (length xs) + rfind c ys else rfind c xs)"
proof (induction xs)
  case Nil
  then show ?case by (simp add: rfind_absent)
next
  case (Cons x xs)
  show ?case
  proof (cases "c \<in> set ys")
    case True
    then have "0 \<le> rfind c ys" by (simp add: rfind_mem)
    then show ?thesis using Cons True by (simp add: Let_def)
  next
    case False
    then show ?thesis using Cons by (simp add: Let_def)
  qed
qed

lemma rfind_split:
  assumes "0 \<le> rfind c xs"
  shows "\<exists>t. drop (nat (rfind c xs)) xs = c # t \<and> c \<notin> set t"
  using assms
proof (induction xs)
  case Nil
  then show ?case by simp
next
  case (Cons x xs)
  show ?case
  proof (cases "0 \<le> rfind c xs")
    case True
    then have "nat (rfind c (x # xs)) = Suc (nat (rfind c xs))" by (simp add: Let_def)
    then show ?thesis using Cons.IH [OF True] by simp
  next
    case False
    then have "c \<notin> set xs" by (simp add: rfind_mem)
    moreover have "x = c" using Cons.prems False by (simp add: Let_def split: if_splits)
    ultimately show ?thesis using False by (simp add: Let_def)
  qed
qed

lemma lower_char_cases:
  "lower_char c = c
   \<or> (c \<in> set ''ABCDEFGHIJKLMNOPQRSTUVWXYZ'' \<and> lower_char c \<in> set ''abcdefghijklmnopqrstuvwxyz'')"
  by (simp add: lower_char_def)

lemma lower_char_dot: "lower_char c = CHR ''.'' \<longleftrightarrow> c = CHR ''.''"
  using lower_char_cases [of c] by (auto simp: lower_char_def)

lemma lower_char_letter:
  assumes "lower_char c \<in> {CHR ''o'', CHR ''t'', CHR ''f''}"
  shows "c \<noteq> CHR ''.'' \<and> c \<noteq> CHR ''/''"
  using assms by (auto simp: lower_char_def)

lemma otf_ext_shape:
  assumes "lower e = ''.otf''"
  shows "\<exists>t. e = CHR ''.'' # t \<and> CHR ''.'' \<notin> set t \<and> CHR ''/'' \<notin> set e \<and> length e = 4"
proof -
  from assms obtain a b c d where e: "e = [a, b, c, d]"
    and l: "lower_char a = CHR ''.''" "lower_char b = CHR ''o''" "lower_char c = CHR ''t''"
      "lower_char d = CHR ''f''"
    by (auto simp: lower_def map_eq_Cons_conv)
  have "a = CHR ''.''" using l(1) by (simp add: lower_char_dot)
  moreover have "b \<noteq> CHR ''.'' \<and> b \<noteq> CHR ''/''" using l(2) by (intro lower_char_letter) simp
  moreover have "c \<noteq> CHR ''.'' \<and> c \<noteq> CHR ''/''" using l(3) by (intro lower_char_letter) simp
  moreover have "d \<noteq> CHR ''.'' \<and> d \<noteq> CHR ''/''" using l(4) by (intro lower_char_letter) simp
  ultimately show ?thesis using e by auto
qed

lemma splitext_stem_ext:
  assumes e: "e = CHR ''.'' # t" "CHR ''.'' \<notin> set t" "CHR ''/'' \<notin> set e"
    and stem: "filter (\<lambda>c. c \<noteq> CHR ''.'') (basename stem) \<noteq> []"
  shows "splitext (stem @ e) = (stem, e)"
proof -
  have dot: "rfind CHR ''.'' (stem @ e) = int (length stem)"
    using e by (simp add: rfind_append rfind_absent Let_def)
  have sep: "rfind CHR ''/'' (stem @ e) = rfind CHR ''/'' stem"
    using e by (simp add: rfind_append)
  have lt: "rfind CHR ''/'' stem < int (length stem)" by (rule rfind_upper)
  have ge: "- 1 \<le> rfind CHR ''/'' stem" by (rule rfind_lower)
  have seg: "take (nat (int (length stem) - (rfind CHR ''/'' stem + 1)))
      (drop (nat (rfind CHR ''/'' stem + 1)) (stem @ e)) = basename stem"
    using lt ge by (simp add: basename_def)
  show ?thesis
    unfolding splitext_def Let_def dot sep seg using lt stem by simp
qed

lemma splitext_ext_nonempty:
  assumes "snd (splitext p) \<noteq> []"
  shows "\<exists>stem e t. p = stem @ e \<and> splitext p = (stem, e) \<and> e = CHR ''.'' # t
    \<and> filter (\<lambda>c. c \<noteq> CHR ''.'') (basename stem) \<noteq> []"
proof -
  let ?sep = "rfind CHR ''/'' p" and ?dot = "rfind CHR ''.'' p"
  let ?stem = "take (nat ?dot) p" and ?e = "drop (nat ?dot) p"
  have cond: "?dot > ?sep"
    "filter (\<lambda>c. c \<noteq> CHR ''.'') (take (nat (?dot - (?sep + 1))) (drop (nat (?sep + 1)) p)) \<noteq> []"
    and sp: "splitext p = (?stem, ?e)"
    using assms by (auto simp: splitext_def Let_def split: if_splits)
  have ge: "- 1 \<le> ?sep" by (rule rfind_lower)
  then have dot0: "0 \<le> ?dot" using cond(1) by linarith
  then obtain t where t: "?e = CHR ''.'' # t" "CHR ''.'' \<notin> set t"
    using rfind_split by blast
  have no_sep: "CHR ''/'' \<notin> set ?e"
  proof
    assume "CHR ''/'' \<in> set ?e"
    then have "0 \<le> rfind CHR ''/'' ?e" by (simp add: rfind_mem)
    moreover have "?sep = int (length ?stem) + rfind CHR ''/'' ?e"
      using rfind_append [of "CHR ''/''" ?stem ?e] \<open>CHR ''/'' \<in> set ?e\<close> by simp
    moreover have "int (length ?stem) = ?dot"
      using dot0 rfind_upper [of "CHR ''.''" p] by simp
    ultimately show False using cond(1) by linarith
  qed
  then have sep': "rfind CHR ''/'' ?stem = ?sep"
    using rfind_append [of "CHR ''/''" ?stem ?e] by simp
  have "take (nat (?dot - (?sep + 1))) (drop (nat (?sep + 1)) p) = basename ?stem"
    using ge cond(1) dot0
    by (simp add: basename_def sep' drop_take nat_diff_distrib)
  with cond(2) have nz: "filter (\<lambda>c. c \<noteq> CHR ''.'') (basename ?stem) \<noteq> []" by simp
  have pe: "p = ?stem @ ?e" by simp
  from pe sp t(1) nz show ?thesis by blast
qed

lemma otf_input_iff:
  "otf_input a \<longleftrightarrow>
    (\<exists>stem e. in_font a = stem @ e \<and> length e = 4 \<and> lower e = ''.otf''
       \<and> filter (\<lambda>c. c \<noteq> CHR ''.'') (basename stem) \<noteq> [])"
proof
  assume "otf_input a"
  then have l: "lower (snd (splitext (in_font a))) = ''.otf''" by (simp add: otf_input_def)
  then have "snd (splitext (in_font a)) \<noteq> []" by (auto simp: lower_def)
  from splitext_ext_nonempty [OF this] obtain stem e where
    "in_font a = stem @ e" "splitext (in_font a) = (stem, e)"
    "filter (\<lambda>c. c \<noteq> CHR ''.'') (basename stem) \<noteq> []"
    by blast
  moreover from this l have "lower e = ''.otf''" by simp
  moreover from this have "length e = 4" using otf_ext_shape by blast
  ultimately show "\<exists>stem e. in_font a = stem @ e \<and> length e = 4 \<and> lower e = ''.otf''
       \<and> filter (\<lambda>c. c \<noteq> CHR ''.'') (basename stem) \<noteq> []"
    by blast
next
  assume "\<exists>stem e. in_font a = stem @ e \<and> length e = 4 \<and> lower e = ''.otf''
       \<and> filter (\<lambda>c. c \<noteq> CHR ''.'') (basename stem) \<noteq> []"
  then obtain stem e where p: "in_font a = stem @ e" and l: "lower e = ''.otf''"
    and s: "filter (\<lambda>c. c \<noteq> CHR ''.'') (basename stem) \<noteq> []"
    by blast
  from otf_ext_shape [OF l] obtain t where "e = CHR ''.'' # t" "CHR ''.'' \<notin> set t"
    "CHR ''/'' \<notin> set e"
    by blast
  then have "splitext (stem @ e) = (stem, e)" using s by (rule splitext_stem_ext)
  then show "otf_input a" using p l by (simp add: otf_input_def)
qed

lemma print_then_first_line:
  assumes "preserves grows_stdout (f ())"
  shows "(\<exists>e. stdout_error env L = Some e \<and> and_then (print_out env L) f w = (Raise e, w))
    \<or> (\<exists>rest. stdout (snd (and_then (print_out env L) f w)) = stdout w @ L # rest)"
proof (cases "stdout_error env L")
  case (Some e)
  then show ?thesis by (simp add: print_out_Some)
next
  case None
  let ?w = "w\<lparr>stdout := stdout w @ [L]\<rparr>"
  have "and_then (print_out env L) f w = f () ?w"
    using None by (simp add: and_then_def print_out_None)
  moreover have "prefix (stdout ?w) (stdout (snd (f () ?w)))"
    using preservesD [OF assms, of ?w] by (simp add: grows_stdout_def)
  ultimately show ?thesis by (auto elim!: prefixE)
qed

lemma first_line_and_then:
  assumes m: "(\<exists>e. stdout_error env L = Some e \<and> m w = (Raise e, w)) \<or> (\<exists>rest. stdout (snd (m w)) = stdout w @ L # rest)"
    and f: "\<And>x. preserves grows_stdout (f x)"
  shows "(\<exists>e. stdout_error env L = Some e \<and> and_then m f w = (Raise e, w))
    \<or> (\<exists>rest. stdout (snd (and_then m f w)) = stdout w @ L # rest)"
proof (rule and_then_cases [of m w f])
  fix x w' assume *: "m w = (Ok x, w')" "and_then m f w = f x w'"
  from m * obtain rest where r: "stdout w' = stdout w @ L # rest" by auto
  have "preserves grows_stdout (f x)" by (rule f)
  from preservesD [OF this, of w'] have "prefix (stdout w') (stdout (snd (f x w')))"
    by (simp add: grows_stdout_def)
  then show ?thesis using * r by (auto elim!: prefixE)
next
  fix e w' assume "m w = (Raise e, w')" "and_then m f w = (Raise e, w')"
  then show ?thesis using m by auto
next
  fix n w' assume "m w = (SysExit n, w')" "and_then m f w = (SysExit n, w')"
  then show ?thesis using m by auto
qed

lemmas grows_intros =
  preserves_and_then [OF preorder_grows_stdout] preserves_if preserves_case_option
  grows_stdout_atomic grows_stdout_stages

lemma stage_A_first_line:
  "\<exists>L. take 4 L = ''[A] '' \<and> ((\<exists>e. stdout_error env L = Some e \<and> stage_A env a t w = (Raise e, w))
     \<or> (\<exists>rest. stdout (snd (stage_A env a t w)) = stdout w @ L # rest))"
proof (cases "truthy (text_file a)")
  case True
  let ?L = "''[A] Pre-subset OTF by text-file '' @ arrow @ '' '' @ join t ''subset.otf''"
  have "(\<exists>e. stdout_error env ?L = Some e \<and> stage_A env a t w = (Raise e, w))
      \<or> (\<exists>rest. stdout (snd (stage_A env a t w)) = stdout w @ ?L # rest)"
    using True unfolding stage_A_def Let_def
    by (simp only: if_True) (intro print_then_first_line grows_intros)
  moreover have "take 4 ?L = ''[A] ''" by simp
  ultimately show ?thesis by blast
next
  case False
  define u where "u = (if truthy (unicodes a) then unicodes a
     else PRESETS_get (if truthy (preset a) then opt_str (preset a) else ''sc-min''))"
  let ?L = "''[A] Pre-subset OTF by unicodes ('' @ str_opt u @ '') '' @ arrow @ '' ''
             @ join t ''subset.otf''"
  have "(\<exists>e. stdout_error env ?L = Some e \<and> stage_A env a t w = (Raise e, w))
      \<or> (\<exists>rest. stdout (snd (stage_A env a t w)) = stdout w @ ?L # rest)"
    using False unfolding stage_A_def Let_def u_def
    by (simp only: if_False) (intro print_then_first_line grows_intros)
  moreover have "take 4 ?L = ''[A] ''" by simp
  ultimately show ?thesis by blast
qed

lemma ttf_branch_first_line:
  "\<exists>L. take 4 L = ''[T] '' \<and> ((\<exists>e. stdout_error env L = Some e \<and> ttf_branch env a w = (Raise e, w))
     \<or> (\<exists>rest. stdout (snd (ttf_branch env a w)) = stdout w @ L # rest))"
proof -
  consider (by_text) "truthy (text_file a)"
    | (by_unicodes) "\<not> truthy (text_file a)" "truthy (unicodes a) \<or> truthy (preset a)"
    | (as_is) "\<not> truthy (text_file a)" "\<not> truthy (unicodes a)" "\<not> truthy (preset a)"
    by blast
  then show ?thesis
  proof cases
    case by_text
    let ?L = "''[T] Subset TTF by text-file '' @ arrow @ '' '' @ out_font a"
    have "(\<exists>e. stdout_error env ?L = Some e \<and> ttf_branch env a w = (Raise e, w))
      \<or> (\<exists>rest. stdout (snd (ttf_branch env a w)) = stdout w @ ?L # rest)"
      using by_text unfolding ttf_branch_def Let_def
      by (simp only: if_True simp_thms) (intro print_then_first_line grows_intros)
    moreover have "take 4 ?L = ''[T] ''" by simp
    ultimately show ?thesis by blast
  next
    case by_unicodes
    define u where "u = (if truthy (unicodes a) then unicodes a
       else PRESETS_get (if truthy (preset a) then opt_str (preset a) else ''sc-min''))"
    let ?L = "''[T] Subset TTF by unicodes ('' @ str_opt u @ '') '' @ arrow @ '' '' @ out_font a"
    have c: "truthy (text_file a) \<or> truthy (unicodes a) \<or> truthy (preset a)"
      using by_unicodes by blast
    have "(\<exists>e. stdout_error env ?L = Some e \<and> ttf_branch env a w = (Raise e, w))
      \<or> (\<exists>rest. stdout (snd (ttf_branch env a w)) = stdout w @ ?L # rest)"
      unfolding ttf_branch_def Let_def u_def if_P [OF c] if_not_P [OF by_unicodes(1)]
      by (intro print_then_first_line grows_intros)
    moreover have "take 4 ?L = ''[T] ''" by simp
    ultimately show ?thesis by blast
  next
    case as_is
    let ?L = "''[T] Copy TTF as-is '' @ arrow @ '' '' @ out_font a"
    have c: "\<not> (truthy (text_file a) \<or> truthy (unicodes a) \<or> truthy (preset a))"
      using as_is by blast
    have "(\<exists>e. stdout_error env ?L = Some e \<and> ttf_branch env a w = (Raise e, w))
      \<or> (\<exists>rest. stdout (snd (ttf_branch env a w)) = stdout w @ ?L # rest)"
      unfolding ttf_branch_def Let_def if_not_P [OF c]
      by (intro print_then_first_line grows_intros)
    moreover have "take 4 ?L = ''[T] ''" by simp
    ultimately show ?thesis by blast
  qed
qed

lemma try_block_first_line:
  "\<exists>L. take 4 L = (if otf_input a then ''[A] '' else ''[T] '')
    \<and> ((\<exists>e. stdout_error env L = Some e
        \<and> and_then (produce_output env a t) (\<lambda>_. final_verification env a) w = (Raise e, w))
      \<or> (\<exists>rest.
          stdout (snd (and_then (produce_output env a t) (\<lambda>_. final_verification env a) w))
            = stdout w @ L # rest))"
proof (cases "otf_input a")
  case True
  obtain L where L: "take 4 L = ''[A] ''"
    "(\<exists>e. stdout_error env L = Some e \<and> stage_A env a t w = (Raise e, w))
      \<or> (\<exists>rest. stdout (snd (stage_A env a t w)) = stdout w @ L # rest)"
    using stage_A_first_line by blast
  from L(2) have "(\<exists>e. stdout_error env L = Some e \<and> otf_branch env a t w = (Raise e, w))
      \<or> (\<exists>rest. stdout (snd (otf_branch env a t w)) = stdout w @ L # rest)"
    unfolding otf_branch_def by (rule first_line_and_then) (intro grows_intros)
  then have "(\<exists>e. stdout_error env L = Some e
        \<and> and_then (otf_branch env a t) (\<lambda>_. final_verification env a) w = (Raise e, w))
      \<or> (\<exists>rest. stdout (snd (and_then (otf_branch env a t) (\<lambda>_. final_verification env a) w))
            = stdout w @ L # rest)"
    by (rule first_line_and_then) (intro grows_intros)
  then show ?thesis using True L(1) by (auto simp: produce_output_def)
next
  case False
  obtain L where L: "take 4 L = ''[T] ''"
    "(\<exists>e. stdout_error env L = Some e \<and> ttf_branch env a w = (Raise e, w))
      \<or> (\<exists>rest. stdout (snd (ttf_branch env a w)) = stdout w @ L # rest)"
    using ttf_branch_first_line by blast
  from L(2) have
    "(\<exists>e. stdout_error env L = Some e
        \<and> and_then (ttf_branch env a) (\<lambda>_. final_verification env a) w = (Raise e, w))
      \<or> (\<exists>rest. stdout (snd (and_then (ttf_branch env a) (\<lambda>_. final_verification env a) w))
            = stdout w @ L # rest)"
    by (rule first_line_and_then) (intro grows_intros)
  then show ?thesis using False L(1) by (auto simp: produce_output_def)
qed

text \<open>
  C9. In every run that has passed the prelude, the lower-cased extension of the input path
  alone selects the branch: the OTF branch when it is \<^verbatim>\<open>.otf\<close>, and the other
  branch in every other case. The first thing the selected branch does is to print a line
  that starts with \<^verbatim>\<open>[A]\<close> on the OTF branch and with \<^verbatim>\<open>[T]\<close> on the
  other: either it is the first line that the run prints, or standard output refuses such
  a line, and the run prints nothing and ends with that exception uncaught. The test reads
  the path and no file. It holds exactly for a path that ends in four characters that
  lower-case to \<^verbatim>\<open>.otf\<close>, after a file name that has a character other than a dot.
\<close>
theorem dispatch_by_extension:
  assumes "prelude env a w = (Ok tmpdir, w2)"
  shows "run_script env a w =
      (outcome_of (fst (and_then (if otf_input a then otf_branch env a tmpdir else ttf_branch env a)
           (\<lambda>_. final_verification env a) w2)),
       rmtree env tmpdir
         (snd (and_then (if otf_input a then otf_branch env a tmpdir else ttf_branch env a)
           (\<lambda>_. final_verification env a) w2)))
    \<and> ((new_stdout env a w \<noteq> []
        \<and> take 4 (hd (new_stdout env a w)) = (if otf_input a then ''[A] '' else ''[T] ''))
      \<or> (\<exists>L e. take 4 L = (if otf_input a then ''[A] '' else ''[T] '')
            \<and> stdout_error env L = Some e
            \<and> new_stdout env a w = [] \<and> fst (run_script env a w) = Traceback e))
    \<and> (otf_input a \<longleftrightarrow>
         (\<exists>stem e. in_font a = stem @ e \<and> length e = 4 \<and> lower e = ''.otf''
            \<and> filter (\<lambda>c. c \<noteq> CHR ''.'') (basename stem) \<noteq> []))"
proof -
  let ?body = "and_then (produce_output env a tmpdir) (\<lambda>_. final_verification env a)"
  have run: "run_script env a w =
      (outcome_of (fst (and_then (if otf_input a then otf_branch env a tmpdir else ttf_branch env a)
           (\<lambda>_. final_verification env a) w2)),
       rmtree env tmpdir
         (snd (and_then (if otf_input a then otf_branch env a tmpdir else ttf_branch env a)
           (\<lambda>_. final_verification env a) w2)))"
    using run_script_ready [OF assms] by (simp add: produce_output_def)
  obtain L where L: "take 4 L = (if otf_input a then ''[A] '' else ''[T] '')"
    "(\<exists>e. stdout_error env L = Some e \<and> ?body w2 = (Raise e, w2))
      \<or> (\<exists>rest. stdout (snd (?body w2)) = stdout w2 @ L # rest)"
    using try_block_first_line by blast
  have lines: "(new_stdout env a w \<noteq> []
        \<and> take 4 (hd (new_stdout env a w)) = (if otf_input a then ''[A] '' else ''[T] ''))
      \<or> (\<exists>L e. take 4 L = (if otf_input a then ''[A] '' else ''[T] '')
            \<and> stdout_error env L = Some e
            \<and> new_stdout env a w = [] \<and> fst (run_script env a w) = Traceback e)"
    using L(2)
  proof
    assume "\<exists>e. stdout_error env L = Some e \<and> ?body w2 = (Raise e, w2)"
    then obtain e where e: "stdout_error env L = Some e" "?body w2 = (Raise e, w2)" by blast
    then have "run_script env a w = (Traceback e, rmtree env tmpdir w2)"
      by (simp add: run_script_ready [OF assms] outcome_of_def)
    then have "new_stdout env a w = [] \<and> fst (run_script env a w) = Traceback e"
      using prelude_OkD(3) [OF assms] by (simp add: new_stdout_def rmtree_def Let_def)
    with L(1) e(1) show ?thesis by blast
  next
    assume "\<exists>rest. stdout (snd (?body w2)) = stdout w2 @ L # rest"
    then obtain rest where "stdout (snd (?body w2)) = stdout w2 @ L # rest" by blast
    then have "new_stdout env a w = L # rest"
      using prelude_OkD(3) [OF assms]
      by (simp add: new_stdout_def run_script_ready [OF assms] rmtree_def Let_def)
    with L(1) show ?thesis by simp
  qed
  from run lines otf_input_iff [of a] show ?thesis by simp
qed

section \<open>The example runs\<close>

text \<open>Evaluations of the example runs, shared by the witnesses.\<close>

lemma prelude0:
  "prelude env0 a0 w0 = (Ok tmp0, snd (prelude env0 a0 w0))"
  "prelude env_small_ff a0 w0 = (Ok tmp0, snd (prelude env_small_ff a0 w0))"
  "prelude env_no_ff a0 w0 = (Ok tmp0, snd (prelude env_no_ff a0 w0))"
  "prelude env0 a_small w0 = (Ok tmp0, snd (prelude env0 a_small w0))"
  "prelude env0 a_skip w0 = (Ok tmp0, snd (prelude env0 a_skip w0))"
  "prelude env0 a_upper w0 = (Ok tmp0, snd (prelude env0 a_upper w0))"
  "prelude env0 a_woff w0 = (Ok tmp0, snd (prelude env0 a_woff w0))"
  "prelude env_gbk a_ttf w0 = (Ok tmp0, snd (prelude env_gbk a_ttf w0))"
  "prelude env_gbk a_small w0 = (Ok tmp0, snd (prelude env_gbk a_small w0))"
  "prelude env_ascii a0 w0 = (Ok tmp0, snd (prelude env_ascii a0 w0))"
  by (rule prod_eqI, code_simp, simp)+

lemma stdout0: "stdout_error env0 s = None"
  by (simp add: env0_def)

lemma status_lines0: "stdout_error env0 (failure_line a) = None"
  "first_error env0 (success_lines a) = None"
  by (simp_all add: stdout0 success_lines_def)

lemma status_lines_gbk:
  "stdout_error env_gbk (failure_line a_small) = Some UnicodeEncodeError"
  "first_error env_gbk (success_lines a_ttf) = Some UnicodeEncodeError"
  by code_simp+

lemma outcomes0:
  "fst (run_script env0 a0 w0) = Exit 0"
  "fst (run_script env_small_ff a0 w0) = Exit 2"
  "fst (run_script env0 a_small w0) = Exit 3"
  "fst (run_script env_no_ff a0 w0) =
     Traceback (RuntimeError ''FontForge CLI not found. Install with: brew install fontforge'')"
  by code_simp+

text \<open>The theorem at concrete runs of the small world.\<close>
theorem verification_exit_codes_witness:
  "otf_input a0
   \<and> stages_AB env_small_ff a0 tmp0 (snd (prelude env_small_ff a0 w0))
       = (Ok (), snd (stages_AB env_small_ff a0 tmp0 (snd (prelude env_small_ff a0 w0))))
   \<and> rejected a0 (descriptor env_small_ff
         (snd (stages_AB env_small_ff a0 tmp0 (snd (prelude env_small_ff a0 w0))))
         (join tmp0 ''intermediate.ttf''))
   \<and> fst (run_script env_small_ff a0 w0) = Exit 2
   \<and> produce_output env0 a0 tmp0 (snd (prelude env0 a0 w0))
       = (Ok (), snd (produce_output env0 a0 tmp0 (snd (prelude env0 a0 w0))))
   \<and> fst (run_script env0 a0 w0) = Exit 0
   \<and> produce_output env0 a_small tmp0 (snd (prelude env0 a_small w0))
       = (Ok (), snd (produce_output env0 a_small tmp0 (snd (prelude env0 a_small w0))))
   \<and> fst (run_script env0 a_small w0) = Exit 3
   \<and> produce_output env_gbk a_ttf tmp0 (snd (prelude env_gbk a_ttf w0))
       = (Ok (), snd (produce_output env_gbk a_ttf tmp0 (snd (prelude env_gbk a_ttf w0))))
   \<and> fst (run_script env_gbk a_ttf w0) = Traceback UnicodeEncodeError"
proof -
  let ?w2 = "snd (prelude env_small_ff a0 w0)"
  let ?w4 = "snd (stages_AB env_small_ff a0 tmp0 ?w2)"
  have otf: "otf_input a0" by code_simp
  have ab: "stages_AB env_small_ff a0 tmp0 ?w2 = (Ok (), ?w4)"
    by (rule prod_eqI, code_simp, simp)
  have rej: "rejected a0 (descriptor env_small_ff ?w4 (join tmp0 ''intermediate.ttf''))"
    by code_simp
  have e2: "fst (run_script env_small_ff a0 w0) = Exit 2"
    using verification_exit_codes [OF prelude0(2), of ?w4] otf ab rej by blast
  let ?v2 = "snd (prelude env0 a0 w0)"
  let ?v5 = "snd (produce_output env0 a0 tmp0 ?v2)"
  have po: "produce_output env0 a0 tmp0 ?v2 = (Ok (), ?v5)"
    by (rule prod_eqI, code_simp, simp)
  have acc: "\<not> rejected a0 (descriptor env0 ?v5 (out_font a0))"
    by code_simp
  have e0: "fst (run_script env0 a0 w0) = Exit 0"
    using verification_exit_codes [OF prelude0(1), of _ ?v5] po acc
    by (simp add: status_lines0)
  let ?u2 = "snd (prelude env0 a_small w0)"
  let ?u5 = "snd (produce_output env0 a_small tmp0 ?u2)"
  have po3: "produce_output env0 a_small tmp0 ?u2 = (Ok (), ?u5)"
    by (rule prod_eqI, code_simp, simp)
  have rej3: "rejected a_small (descriptor env0 ?u5 (out_font a_small))"
    by code_simp
  have e3: "fst (run_script env0 a_small w0) = Exit 3"
    using verification_exit_codes [OF prelude0(4), of _ ?u5] po3 rej3
    by (simp add: status_lines0)
  let ?g2 = "snd (prelude env_gbk a_ttf w0)"
  let ?g5 = "snd (produce_output env_gbk a_ttf tmp0 ?g2)"
  have pog: "produce_output env_gbk a_ttf tmp0 ?g2 = (Ok (), ?g5)"
    by (rule prod_eqI, code_simp, simp)
  have accg: "\<not> rejected a_ttf (descriptor env_gbk ?g5 (out_font a_ttf))"
    by code_simp
  have eg: "fst (run_script env_gbk a_ttf w0) = Traceback UnicodeEncodeError"
    using verification_exit_codes [OF prelude0(8), of _ ?g5] pog accg
    by (simp add: status_lines_gbk)
  from otf ab rej e2 po e0 po3 e3 pog eg show ?thesis by blast
qed

text \<open>
  C1 as stated fails when standard output encodes the arrow and not the check mark. A
  TrueType input of 800 glyphs is copied to the output path, the copy has both tables and
  at least 500 glyphs, and the run ends with an uncaught \<^verbatim>\<open>UnicodeEncodeError\<close>,
  not with exit code 0. A TrueType input of 200 glyphs is copied, the copy has too few
  glyphs, and the run ends with the same uncaught exception, not with exit code 3, and with
  nothing on standard error.
\<close>
theorem verification_exit_codes_counterexample:
  "fst (prelude env_gbk a_ttf w0) = Ok tmp0
   \<and> fst (produce_output env_gbk a_ttf tmp0 (snd (prelude env_gbk a_ttf w0))) = Ok ()
   \<and> descriptor env_gbk (snd (produce_output env_gbk a_ttf tmp0 (snd (prelude env_gbk a_ttf w0))))
        (out_font a_ttf) = (True, True, True, 800)
   \<and> min_glyphs a_ttf = 500
   \<and> fst (run_script env_gbk a_ttf w0) = Traceback UnicodeEncodeError
   \<and> fst (run_script env_gbk a_ttf w0) \<noteq> Exit 0
   \<and> fst (prelude env_gbk a_small w0) = Ok tmp0
   \<and> fst (produce_output env_gbk a_small tmp0 (snd (prelude env_gbk a_small w0))) = Ok ()
   \<and> descriptor env_gbk
        (snd (produce_output env_gbk a_small tmp0 (snd (prelude env_gbk a_small w0))))
        (out_font a_small) = (True, True, True, 200)
   \<and> min_glyphs a_small = 500
   \<and> fst (run_script env_gbk a_small w0) = Traceback UnicodeEncodeError
   \<and> fst (run_script env_gbk a_small w0) \<noteq> Exit 3
   \<and> stderr (snd (run_script env_gbk a_small w0)) = []"
  by code_simp

text \<open>The theorem at concrete runs of the small world.\<close>
theorem missing_input_exits_1_witness:
  "\<not> isfile env0 (fs w0) (in_font a_missing)
   \<and> run_script env0 a_missing w0 =
       (Exit 1, w0\<lparr>stderr := stderr w0 @ [''ERROR: input not found: '' @ in_font a_missing]\<rparr>)
   \<and> stderr (snd (run_script env0 a_missing w0)) = [''ERROR: input not found: /in/nofont.otf'']"
proof -
  have h: "\<not> isfile env0 (fs w0) (in_font a_missing)" by code_simp
  have s: "stderr w0 @ [''ERROR: input not found: '' @ in_font a_missing]
    = [''ERROR: input not found: /in/nofont.otf'']" by code_simp
  from missing_input_exits_1 [OF h] h s show ?thesis by simp
qed

text \<open>The theorem at concrete runs of the small world.\<close>
theorem tmpdir_removed_witness:
  "resolve env0 tmp0 = [''tmp'', ''cjk2ttf_k3x9'']
   \<and> [''tmp'', ''cjk2ttf_k3x9''] \<in> dirs (fs (snd (prelude env0 a0 w0)))
   \<and> fst (run_script env0 a0 w0) = Exit 0
   \<and> [''tmp'', ''cjk2ttf_k3x9''] \<notin> dirs (fs (snd (run_script env0 a0 w0)))
   \<and> files (fs (snd (run_script env0 a0 w0))) [''tmp'', ''cjk2ttf_k3x9'', ''intermediate.ttf'']
       = None
   \<and> fst (run_script env_small_ff a0 w0) = Exit 2
   \<and> [''tmp'', ''cjk2ttf_k3x9''] \<notin> dirs (fs (snd (run_script env_small_ff a0 w0)))
   \<and> fst (run_script env0 a_small w0) = Exit 3
   \<and> [''tmp'', ''cjk2ttf_k3x9''] \<notin> dirs (fs (snd (run_script env0 a_small w0)))
   \<and> fst (run_script env_no_ff a0 w0) =
       Traceback (RuntimeError ''FontForge CLI not found. Install with: brew install fontforge'')
   \<and> [''tmp'', ''cjk2ttf_k3x9''] \<notin> dirs (fs (snd (run_script env_no_ff a0 w0)))
   \<and> files (fs (snd (run_script env_no_ff a0 w0))) [''tmp'', ''cjk2ttf_k3x9'', ''subset.otf'']
       = None"
proof -
  have k: "resolve env0 tmp0 = [''tmp'', ''cjk2ttf_k3x9'']"
    "resolve env_small_ff tmp0 = [''tmp'', ''cjk2ttf_k3x9'']"
    "resolve env_no_ff tmp0 = [''tmp'', ''cjk2ttf_k3x9'']"
    by code_simp+
  have p: "prefix [''tmp'', ''cjk2ttf_k3x9''] [''tmp'', ''cjk2ttf_k3x9'']"
    "prefix [''tmp'', ''cjk2ttf_k3x9''] [''tmp'', ''cjk2ttf_k3x9'', ''intermediate.ttf'']"
    "prefix [''tmp'', ''cjk2ttf_k3x9''] [''tmp'', ''cjk2ttf_k3x9'', ''subset.otf'']"
    by simp_all
  note r0 = tmpdir_removed [OF prelude0(1), unfolded k]
  note r2 = tmpdir_removed [OF prelude0(2), unfolded k]
  note r3 = tmpdir_removed [OF prelude0(4), unfolded k]
  note rt = tmpdir_removed [OF prelude0(3), unfolded k]
  from k(1) r0 r2 r3 rt p outcomes0 show ?thesis by blast
qed

text \<open>The theorem at concrete runs of the small world.\<close>
theorem subsetting_selection_witness:
  "Pyftsubset
     [''/in/font.otf'', ''--output-file=/tmp/cjk2ttf_k3x9/subset.otf'', ''--layout-features=*'',
      ''--no-hinting'', ''--desubroutinize'', ''--text-file=/in/chars.txt'']
     \<in> set (new_invocations env0 a_text w0)
   \<and> Pyftsubset
     [''/tmp/cjk2ttf_k3x9/intermediate.ttf'', ''--output-file=/out/font.ttf'',
      ''--layout-features=*'', ''--no-hinting'', ''--glyph-names'', ''--retain-gids=no'',
      ''--passthrough-tables'', ''--text-file=/in/chars.txt'']
     \<in> set (new_invocations env0 a_text w0)
   \<and> selection a_text = ''--text-file=/in/chars.txt''
   \<and> selection a_text = claimed_selection a_text
   \<and> selection a0 =
       ''--unicodes=U+0020-007E,U+00A0-00FF,U+2000-206F,U+3000-303F,U+FF00-FFEF,U+4E00-9FFF''"
proof -
  let ?A = "[''/in/font.otf'', ''--output-file=/tmp/cjk2ttf_k3x9/subset.otf'',
      ''--layout-features=*'', ''--no-hinting'', ''--desubroutinize'',
      ''--text-file=/in/chars.txt'']"
  let ?C = "[''/tmp/cjk2ttf_k3x9/intermediate.ttf'', ''--output-file=/out/font.ttf'',
      ''--layout-features=*'', ''--no-hinting'', ''--glyph-names'', ''--retain-gids=no'',
      ''--passthrough-tables'', ''--text-file=/in/chars.txt'']"
  have inA: "Pyftsubset ?A \<in> set (new_invocations env0 a_text w0)" by code_simp
  have inC: "Pyftsubset ?C \<in> set (new_invocations env0 a_text w0)" by code_simp
  have ne: "text_file a_text \<noteq> Some [] \<and> unicodes a_text \<noteq> Some [] \<and> preset a_text \<noteq> Some []"
    by code_simp
  have s0: "selection a0 =
       ''--unicodes=U+0020-007E,U+00A0-00FF,U+2000-206F,U+3000-303F,U+FF00-FFEF,U+4E00-9FFF''"
    by code_simp
  from subsetting_selection [of env0 a_text w0] inA inC ne
  have "last ?A = selection a_text" "last ?C = selection a_text"
    "selection a_text = claimed_selection a_text"
    by blast+
  with inA inC s0 show ?thesis by simp
qed

text \<open>
  C2 as stated fails for an explicit but empty Unicode spec: with \<^verbatim>\<open>--unicodes ""\<close>
  and no text file the stated precedence selects the empty spec, and Stage A passes the
  range string of sc-min.
\<close>
theorem subsetting_selection_counterexample:
  "unicodes a_empty_unicodes = Some []
   \<and> text_file a_empty_unicodes = None
   \<and> claimed_selection a_empty_unicodes = ''--unicodes=''
   \<and> hd (new_invocations env0 a_empty_unicodes w0) =
       Pyftsubset
         [''/in/font.otf'', ''--output-file=/tmp/cjk2ttf_k3x9/subset.otf'',
          ''--layout-features=*'', ''--no-hinting'', ''--desubroutinize'',
          ''--unicodes=U+0020-007E,U+00A0-00FF,U+2000-206F,U+3000-303F,U+FF00-FFEF,U+4E00-9FFF'']"
  by code_simp

text \<open>The theorem at concrete runs of the small world.\<close>
theorem ttf_copy_identical_witness:
  "\<not> otf_input a_ttf \<and> preset a_ttf = None \<and> unicodes a_ttf = None \<and> text_file a_ttf = None
   \<and> fst (run_script env0 a_ttf w0) = Exit 0
   \<and> output_produced env0 a_ttf w0
   \<and> (\<exists>b. files (fs w0) (resolve env0 (in_font a_ttf)) = Some b
         \<and> files (fs (snd (run_script env0 a_ttf w0))) (resolve env0 (out_font a_ttf)) = Some b)
   \<and> fst (run_script env_gbk a_ttf w0) = Traceback UnicodeEncodeError
   \<and> output_produced env_gbk a_ttf w0
   \<and> (\<exists>b. files (fs w0) (resolve env_gbk (in_font a_ttf)) = Some b
         \<and> files (fs (snd (run_script env_gbk a_ttf w0))) (resolve env_gbk (out_font a_ttf))
             = Some b)"
proof -
  have h: "\<not> otf_input a_ttf" "preset a_ttf = None" "unicodes a_ttf = None"
    "text_file a_ttf = None"
    by code_simp+
  have e: "fst (run_script env0 a_ttf w0) = Exit 0"
    "fst (run_script env_gbk a_ttf w0) = Traceback UnicodeEncodeError"
    by code_simp+
  have o: "output_produced env0 a_ttf w0" "output_produced env_gbk a_ttf w0"
    by code_simp+
  from ttf_copy_identical [OF h, of env0 w0] ttf_copy_identical [OF h, of env_gbk w0] e h o
  show ?thesis by simp
qed

text \<open>The theorem at concrete runs of the small world.\<close>
theorem check_ttf_tables_total_witness:
  "check_ttf_tables env0 ''/in/font.ttf'' w0 = (Ok (True, True, True, 800), w0)
   \<and> check_ttf_tables env0 ''/in/nomaxp.ttf'' w0 = (Ok (True, True, True, - 1), w0)
   \<and> check_ttf_tables env0 ''/in/absent.ttf'' w0 = (Ok (False, False, False, - 1), w0)"
proof -
  have o: "open_TTFont env0 (fs w0) ''/in/font.ttf'' =
      Inr \<lparr>tables = [''glyf'', ''loca'', ''maxp''], maxp_numGlyphs = Inr 800\<rparr>"
    "open_TTFont env0 (fs w0) ''/in/nomaxp.ttf'' =
      Inr \<lparr>tables = [''glyf'', ''loca''], maxp_numGlyphs = Inl (LibraryError ''maxp'')\<rparr>"
    "open_TTFont env0 (fs w0) ''/in/absent.ttf'' = Inl FileNotFoundError"
    by code_simp+
  show ?thesis
    using check_ttf_tables_total [of env0 "''/in/font.ttf''" w0]
      check_ttf_tables_total [of env0 "''/in/nomaxp.ttf''" w0]
      check_ttf_tables_total [of env0 "''/in/absent.ttf''" w0]
    by (simp add: o)
qed

text \<open>
  C5 as stated fails for a font that opens and has glyf and loca but no maxp table: the
  result is \<open>(True, True, True, -1)\<close>, which is neither the failure tuple nor a tuple
  with a glyph count read from a maxp table.
\<close>
theorem check_ttf_tables_counterexample:
  "open_TTFont env0 (fs w0) ''/in/nomaxp.ttf'' =
     Inr \<lparr>tables = [''glyf'', ''loca''], maxp_numGlyphs = Inl (LibraryError ''maxp'')\<rparr>
   \<and> fst (check_ttf_tables env0 ''/in/nomaxp.ttf'' w0) = Ok (True, True, True, - 1)
   \<and> claimed_check env0 (fs w0) ''/in/nomaxp.ttf'' = (False, False, False, - 1)"
  by code_simp

text \<open>The theorem at concrete runs of the small world.\<close>
theorem no_second_subset_copies_witness:
  "otf_input a_skip \<and> no_second_subset a_skip
   \<and> stages_AB env0 a_skip tmp0 (snd (prelude env0 a_skip w0))
       = (Ok (), snd (stages_AB env0 a_skip tmp0 (snd (prelude env0 a_skip w0))))
   \<and> \<not> rejected a_skip
         (descriptor env0 (snd (stages_AB env0 a_skip tmp0 (snd (prelude env0 a_skip w0))))
            (join tmp0 ''intermediate.ttf''))
   \<and> descriptor env0 (snd (stages_AB env0 a_skip tmp0 (snd (prelude env0 a_skip w0))))
         (join tmp0 ''intermediate.ttf'') = (True, True, True, 700)
   \<and> invocations (snd (run_script env0 a_skip w0))
       = invocations (snd (stages_AB env0 a_skip tmp0 (snd (prelude env0 a_skip w0))))
   \<and> fst (run_script env0 a_skip w0) = Exit 0
   \<and> descriptor env0 (snd (run_script env0 a_skip w0)) (out_font a_skip)
       = (True, True, True, 700)"
proof -
  let ?w2 = "snd (prelude env0 a_skip w0)"
  let ?w4 = "snd (stages_AB env0 a_skip tmp0 ?w2)"
  have otf: "otf_input a_skip" and skip: "no_second_subset a_skip" by code_simp+
  have ab: "stages_AB env0 a_skip tmp0 ?w2 = (Ok (), ?w4)"
    by (rule prod_eqI, code_simp, simp)
  have d: "descriptor env0 ?w4 (join tmp0 ''intermediate.ttf'') = (True, True, True, 700)"
    by code_simp
  have pass: "\<not> rejected a_skip (descriptor env0 ?w4 (join tmp0 ''intermediate.ttf''))"
    by code_simp
  have e: "fst (run_script env0 a_skip w0) = Exit 0" by code_simp
  from no_second_subset_copies [OF prelude0(5) otf skip ab pass] e d otf skip ab pass
  show ?thesis by auto
qed

text \<open>The theorem at concrete runs of the small world.\<close>
theorem dispatch_by_extension_witness:
  "otf_input a0 \<and> take 4 (hd (new_stdout env0 a0 w0)) = ''[A] ''
   \<and> in_font a_upper = ''/in/FONT.OTF'' \<and> otf_input a_upper
   \<and> take 4 (hd (new_stdout env0 a_upper w0)) = ''[A] ''
   \<and> in_font a_woff = ''/in/font.woff'' \<and> \<not> otf_input a_woff
   \<and> take 4 (hd (new_stdout env0 a_woff w0)) = ''[T] ''
   \<and> fst (run_script env0 a_woff w0) = Exit 0
   \<and> new_stdout env_ascii a0 w0 = []
   \<and> (\<exists>L. take 4 L = ''[A] '' \<and> stdout_error env_ascii L = Some UnicodeEncodeError)
   \<and> fst (run_script env_ascii a0 w0) = Traceback UnicodeEncodeError"
proof -
  have o: "otf_input a0" "otf_input a_upper" "\<not> otf_input a_woff"
    "in_font a_upper = ''/in/FONT.OTF''" "in_font a_woff = ''/in/font.woff''"
    by code_simp+
  have e: "fst (run_script env0 a_woff w0) = Exit 0"
    "fst (run_script env_ascii a0 w0) = Traceback UnicodeEncodeError"
    "new_stdout env_ascii a0 w0 = []"
    by code_simp+
  from dispatch_by_extension [OF prelude0(1)] dispatch_by_extension [OF prelude0(6)]
    dispatch_by_extension [OF prelude0(7)] dispatch_by_extension [OF prelude0(10)] o e
  show ?thesis by (auto simp: stdout0)
qed

text \<open>The theorem at concrete runs of the small world.\<close>
theorem failed_output_left_in_place_witness:
  "fst (run_script env0 a_small w0) = Exit 3
   \<and> (\<exists>tmpdir w2 w5 b.
        prelude env0 a_small w0 = (Ok tmpdir, w2)
        \<and> produce_output env0 a_small tmpdir w2 = (Ok (), w5)
        \<and> rejected a_small (descriptor env0 w5 (out_font a_small))
        \<and> files (fs w5) (resolve env0 (out_font a_small)) = Some b
        \<and> files (fs (snd (run_script env0 a_small w0))) (resolve env0 (out_font a_small)) = Some b)
   \<and> files (fs (snd (run_script env0 a_small w0))) [''out'', ''font.ttf''] = Some [2, 1, 2, 3]"
proof -
  have f: "files (fs (snd (run_script env0 a_small w0))) [''out'', ''font.ttf''] = Some [2, 1, 2, 3]"
    by code_simp
  from failed_output_left_in_place [OF outcomes0(3)] outcomes0(3) f show ?thesis by blast
qed

end
